theory Spec2Isabelle
  imports Complex_Main
begin

section \<open>Python strings\<close>

text \<open>
  A Python \<^verbatim>\<open>str\<close> is a sequence of Unicode code points, so it is modelled as a list of
  natural numbers; \<open>str\<close> turns a literal into that form.
\<close>

type_synonym pystr = "nat list"

definition str :: "string \<Rightarrow> pystr" where
  "str s = map of_char s"

text \<open>\<^verbatim>\<open>str.isspace\<close> on one code point: the Unicode white space characters.\<close>

definition isspace :: "nat \<Rightarrow> bool" where
  "isspace c =
     ((9 \<le> c \<and> c \<le> 13) \<or> (28 \<le> c \<and> c \<le> 32) \<or> c = 133 \<or> c = 160 \<or> c = 5760
      \<or> (8192 \<le> c \<and> c \<le> 8202) \<or> c = 8232 \<or> c = 8233 \<or> c = 8239 \<or> c = 8287
      \<or> c = 12288)"

text \<open>\<^verbatim>\<open>s.strip()\<close>: white space removed at both ends.\<close>

definition strip :: "pystr \<Rightarrow> pystr" where
  "strip s = rev (dropWhile isspace (rev (dropWhile isspace s)))"

definition startswith :: "pystr \<Rightarrow> pystr \<Rightarrow> bool" where
  "startswith s p = (take (length p) s = p)"

definition endswith :: "pystr \<Rightarrow> pystr \<Rightarrow> bool" where
  "endswith s p = (length p \<le> length s \<and> drop (length s - length p) s = p)"

text \<open>\<^verbatim>\<open>s[i:-j]\<close> for non-negative \<open>i\<close> and positive \<open>j\<close>.\<close>

definition slice :: "nat \<Rightarrow> nat \<Rightarrow> pystr \<Rightarrow> pystr" where
  "slice i j s = drop i (take (length s - j) s)"

text \<open>\<^verbatim>\<open>text.split("\n")\<close>: always at least one piece.\<close>

fun split_nl :: "pystr \<Rightarrow> pystr list" where
  "split_nl [] = [[]]"
| "split_nl (c # cs) =
     (if c = 10 then [] # split_nl cs
      else (case split_nl cs of [] \<Rightarrow> [[c]] | l # ls \<Rightarrow> (c # l) # ls))"

text \<open>\<^verbatim>\<open>sep.join(parts)\<close>.\<close>

fun join :: "pystr \<Rightarrow> pystr list \<Rightarrow> pystr" where
  "join sep [] = []"
| "join sep [p] = p"
| "join sep (p # q # ps) = p @ sep @ join sep (q # ps)"

text \<open>Decimal digits of a natural number, as \<^verbatim>\<open>str(n)\<close> and \<^verbatim>\<open>f"{n}"\<close> give them.\<close>

fun str_of_nat :: "nat \<Rightarrow> pystr" where
  "str_of_nat n = (if n < 10 then [48 + n] else str_of_nat (n div 10) @ [48 + n mod 10])"

section \<open>Inline markup: \<^verbatim>\<open>_add_formatted_runs\<close>\<close>

text \<open>
  The pattern is \<^verbatim>\<open>(\*\*.*?\*\*|\*.*?\*)\<close>. After the opening marker the lazy \<^verbatim>\<open>.*?\<close> tries the
  closing marker at the current position first and otherwise consumes one more character, which
  must not be a newline. The functions return how many characters the lazy part consumed.
\<close>

fun lazy_until_bold :: "pystr \<Rightarrow> nat option" where
  "lazy_until_bold [] = None"
| "lazy_until_bold (c # cs) =
     (if startswith (c # cs) (str ''**'') then Some 0
      else if c = 10 then None
      else map_option Suc (lazy_until_bold cs))"

fun lazy_until_italic :: "pystr \<Rightarrow> nat option" where
  "lazy_until_italic [] = None"
| "lazy_until_italic (c # cs) =
     (if c = 42 then Some 0
      else if c = 10 then None
      else map_option Suc (lazy_until_italic cs))"

text \<open>
  The length of the match of the pattern at the start of \<open>s\<close>: the first alternative is tried
  first, the second only when the first fails at this position.
\<close>

definition match_emphasis :: "pystr \<Rightarrow> nat option" where
  "match_emphasis s =
     (case (if startswith s (str ''**'')
            then map_option (\<lambda>k. k + 4) (lazy_until_bold (drop 2 s)) else None) of
        Some n \<Rightarrow> Some n
      | None \<Rightarrow>
          (if startswith s (str ''*'')
           then map_option (\<lambda>k. k + 2) (lazy_until_italic (drop 1 s)) else None))"

text \<open>
  \<^verbatim>\<open>re.split\<close> with one capturing group: the text before each leftmost match, the match itself,
  and at the end the rest. \<open>acc\<close> is the text passed over since the last match.
\<close>

function re_split :: "pystr \<Rightarrow> pystr \<Rightarrow> pystr list" where
  "re_split acc [] = [acc]"
| "re_split acc (c # cs) =
     (case match_emphasis (c # cs) of
        None \<Rightarrow> re_split (acc @ [c]) cs
      | Some n \<Rightarrow> acc # take n (c # cs) # re_split [] (drop n (c # cs)))"
  by pat_completeness auto
termination
  by (relation "measure (\<lambda>(acc, s). length s)")
     (auto simp: match_emphasis_def split: if_splits option.splits)

text \<open>A run of python-docx: its text, and the two flags, which are \<open>None\<close> unless set.\<close>

record run =
  run_text :: pystr
  bold :: "bool option"
  italic :: "bool option"

definition add_run :: "pystr \<Rightarrow> run" where
  "add_run t = \<lparr>run_text = t, bold = None, italic = None\<rparr>"

text \<open>The body of the loop over the parts.\<close>

definition format_part :: "pystr \<Rightarrow> run" where
  "format_part part =
     (if startswith part (str ''**'') \<and> endswith part (str ''**'')
      then (add_run (slice 2 2 part))\<lparr>bold := Some True\<rparr>
      else if startswith part (str ''*'') \<and> endswith part (str ''*'')
      then (add_run (slice 1 1 part))\<lparr>italic := Some True\<rparr>
      else add_run part)"

text \<open>The runs are appended to those the paragraph already has.\<close>

definition add_formatted_runs :: "run list \<Rightarrow> pystr \<Rightarrow> run list" where
  "add_formatted_runs paragraph text = paragraph @ map format_part (re_split [] text)"

section \<open>Documents: \<^verbatim>\<open>_md_lines_to_docx\<close>\<close>

text \<open>
  The document the python-docx calls build. Lengths are kept as the constructor that made them;
  a margin or font setting is \<open>None\<close> while the template's default stands.
\<close>

datatype length = Pt nat | Cm rat

record cover_para =
  cp_text :: pystr
  cp_size :: length
  cp_color :: "nat \<times> nat \<times> nat"
  cp_bold :: bool
  cp_italic :: bool
  cp_space_before :: "length option"
  cp_space_after :: "length option"

datatype element =
    Heading nat pystr
  | Paragraph "pystr option" "run list"
  | Cover cover_para
  | Page_break

record document =
  top_margin :: "length option"
  bottom_margin :: "length option"
  left_margin :: "length option"
  right_margin :: "length option"
  font_name :: "pystr option"
  font_size :: "length option"
  body :: "element list"

definition DocxDocument :: document where
  "DocxDocument =
     \<lparr>top_margin = None, bottom_margin = None, left_margin = None, right_margin = None,
      font_name = None, font_size = None, body = []\<rparr>"

definition add_heading :: "pystr \<Rightarrow> nat \<Rightarrow> document \<Rightarrow> document" where
  "add_heading t level doc = doc\<lparr>body := body doc @ [Heading level t]\<rparr>"

definition add_paragraph :: "pystr option \<Rightarrow> run list \<Rightarrow> document \<Rightarrow> document" where
  "add_paragraph style runs doc = doc\<lparr>body := body doc @ [Paragraph style runs]\<rparr>"

definition add_page_break :: "document \<Rightarrow> document" where
  "add_page_break doc = doc\<lparr>body := body doc @ [Page_break]\<rparr>"

text \<open>The body of the loop over the lines.\<close>

definition md_line_to_docx :: "document \<Rightarrow> pystr \<Rightarrow> document" where
  "md_line_to_docx doc line =
     (let stripped = strip line in
      if startswith stripped (str ''### '') then add_heading (drop 4 stripped) 3 doc
      else if startswith stripped (str ''## '') then add_heading (drop 3 stripped) 2 doc
      else if startswith stripped (str ''# '') then add_heading (drop 2 stripped) 1 doc
      else if startswith stripped (str ''- '') \<or> startswith stripped (str ''* '')
      then add_paragraph (Some (str ''List Bullet'')) (add_formatted_runs [] (drop 2 stripped)) doc
      else if stripped \<noteq> [] then add_paragraph None (add_formatted_runs [] stripped) doc
      else doc)"

definition md_lines_to_docx :: "document \<Rightarrow> pystr \<Rightarrow> document" where
  "md_lines_to_docx doc text = foldl md_line_to_docx doc (split_nl text)"

subsection \<open>The classification as the specification words it\<close>

text \<open>
  The specification's table of prefixes, in its order of precedence, and the element each kind
  of line stands for. This is the reading of the specification, to be compared with
  \<open>md_line_to_docx\<close>.
\<close>

datatype block = Heading_block nat | Bullet_block | Paragraph_block | No_block

definition spec_prefixes :: "(pystr \<times> block) list" where
  "spec_prefixes =
     [(str ''### '', Heading_block 3), (str ''## '', Heading_block 2),
      (str ''# '', Heading_block 1), (str ''- '', Bullet_block), (str ''* '', Bullet_block)]"

definition spec_classify :: "pystr \<Rightarrow> block \<times> pystr" where
  "spec_classify line =
     (let s = strip line in
      case find (\<lambda>(p, k). startswith s p) spec_prefixes of
        Some (p, k) \<Rightarrow> (k, drop (length p) s)
      | None \<Rightarrow> if s = [] then (No_block, []) else (Paragraph_block, s))"

fun spec_render :: "block \<times> pystr \<Rightarrow> element list" where
  "spec_render (Heading_block n, t) = [Heading n t]"
| "spec_render (Bullet_block, t) = [Paragraph (Some (str ''List Bullet'')) (add_formatted_runs [] t)]"
| "spec_render (Paragraph_block, t) = [Paragraph None (add_formatted_runs [] t)]"
| "spec_render (No_block, t) = []"

section \<open>Exceptions, the world, and programs with effects\<close>

text \<open>
  The classes of exception the model tells apart. \<open>KeyboardInterrupt\<close> and \<open>SystemExit\<close> derive
  from \<^verbatim>\<open>BaseException\<close> only; every other class derives from \<^verbatim>\<open>Exception\<close>. An exception carries
  its class and its message, \<^verbatim>\<open>str(e)\<close>.
\<close>

datatype exn_class =
  ImportError | AttributeError | OSError | ValueError | EOFError | RuntimeError
  | KeyboardInterrupt | SystemExit

datatype exn = Exn (exn_cls: exn_class) (exn_msg: pystr)

definition is_Exception :: "exn \<Rightarrow> bool" where
  "is_Exception e = (exn_cls e \<noteq> KeyboardInterrupt \<and> exn_cls e \<noteq> SystemExit)"

definition is_ImportError :: "exn \<Rightarrow> bool" where
  "is_ImportError e = (exn_cls e = ImportError)"

text \<open>The workflow engine's side of the contract: commands, results and snapshots.\<close>

datatype command = Start pystr | Resume pystr

type_synonym result = "(pystr \<times> pystr) list"

datatype interrupt = Interrupt (intr_value: pystr)

text \<open>A task has the attribute \<^verbatim>\<open>interrupts\<close> or lacks it (\<open>None\<close>).\<close>

datatype task = Task (interrupts: "interrupt list option")

record snapshot =
  snapshot_next :: "pystr list"
  tasks :: "task list"

text \<open>
  What the program does to the outside, in the order it does it. \<open>Raised e\<close> records that the
  engine call just made raised \<open>e\<close>.
\<close>

datatype event =
    Print pystr
  | Display_HTML pystr
  | Display_Markdown pystr
  | Input pystr
  | Build_graph
  | Invoke command
  | Get_state
  | Raised exn
  | Start_log pystr
  | Stop_log

text \<open>One reading of the clock, in the formats the program asks for.\<close>

record reading =
  isoformat :: pystr
  stamp :: pystr
  long_date :: pystr
  seconds :: rat

text \<open>
  An output stream is Python's \<^verbatim>\<open>None\<close>, a primitive destination, or a \<^verbatim>\<open>_TeeWriter\<close> with the
  handle of its log file and the stream it copies to. A log file keeps what was written through
  its handle.
\<close>

datatype stream = NoStream | Dest nat | TeeWriter nat stream

record logfile =
  lf_path :: pystr
  lf_data :: pystr
  lf_closed :: bool

datatype yaml = YStr pystr | YBool bool | YFloat rat | YMap "(pystr \<times> yaml) list"

datatype content = Text pystr | Yaml yaml | Docx document

text \<open>
  Where python-docx fails, if it does: at the import, while the document is built, or when it is
  saved.
\<close>

record docx_backend =
  import_fault :: "exn option"
  compose_fault :: "exn option"
  save_fault :: "exn option"

text \<open>
  The world: the engine's state, the lines the operator will type, the clock, the file system
  (paths in their string form), the module's globals \<^verbatim>\<open>_tee\<close> and \<^verbatim>\<open>_orig_stdout\<close>, \<^verbatim>\<open>sys.stdout\<close>,
  what each destination received, and the trace of events.
\<close>

record 'e world =
  agent :: 'e
  replies :: "pystr list"
  clock :: "nat \<Rightarrow> reading"
  ticks :: nat
  cwd :: pystr
  files :: "pystr \<rightharpoonup> content"
  dirs :: "pystr set"
  unwritable :: "pystr set"
  handles :: "logfile list"
  sys_stdout :: stream
  tee :: "(nat \<times> stream) option"
  orig_stdout :: stream
  console :: "nat \<Rightarrow> pystr"
  docx :: docx_backend
  trace :: "event list"

text \<open>A program returns a value or raises, and leaves a world either way.\<close>

type_synonym ('a, 'e) prog = "'e world \<Rightarrow> (exn + 'a) \<times> 'e world"

definition ret :: "'a \<Rightarrow> ('a, 'e) prog" where
  "ret a w = (Inr a, w)"

definition raise :: "exn \<Rightarrow> ('a, 'e) prog" where
  "raise e w = (Inl e, w)"

definition pbind :: "('a, 'e) prog \<Rightarrow> ('a \<Rightarrow> ('b, 'e) prog) \<Rightarrow> ('b, 'e) prog" where
  "pbind m f w = (case m w of (Inl e, w') \<Rightarrow> (Inl e, w') | (Inr a, w') \<Rightarrow> f a w')"

definition emit :: "event \<Rightarrow> (unit, 'e) prog" where
  "emit ev w = (Inr (), w\<lparr>trace := trace w @ [ev]\<rparr>)"

text \<open>
  The \<^verbatim>\<open>finally\<close> clause of \<^verbatim>\<open>try: ... finally: fin\<close>, applied to the outcome of the \<^verbatim>\<open>try\<close> block:
  \<open>fin\<close> runs on every outcome, and what \<open>fin\<close> raises wins.
\<close>

definition py_finally :: "(unit, 'e) prog \<Rightarrow> (exn + 'a) \<times> 'e world \<Rightarrow> (exn + 'a) \<times> 'e world" where
  "py_finally fin out =
     (case out of (r, w') \<Rightarrow>
        (case fin w' of (Inl e, w'') \<Rightarrow> (Inl e, w'') | (Inr u, w'') \<Rightarrow> (r, w'')))"

definition now :: "(reading, 'e) prog" where
  "now w = (Inr (clock w (ticks w)), w\<lparr>ticks := Suc (ticks w)\<rparr>)"

section \<open>The log tee\<close>

text \<open>Writing through a file handle: a closed file raises \<^verbatim>\<open>ValueError\<close>.\<close>

definition file_write :: "nat \<Rightarrow> pystr \<Rightarrow> (unit, 'e) prog" where
  "file_write h s w =
     (if h < length (handles w) \<and> \<not> lf_closed (handles w ! h)
      then (Inr (), w\<lparr>handles := (handles w)[h := (handles w ! h)\<lparr>lf_data := lf_data (handles w ! h) @ s\<rparr>]\<rparr>)
      else (Inl (Exn ValueError (str ''I/O operation on closed file.'')), w))"

text \<open>
  \<^verbatim>\<open>stream.write(s)\<close>. \<^verbatim>\<open>_TeeWriter.write\<close> writes to the original stream first, then to the log;
  \<^verbatim>\<open>None\<close> has no method \<^verbatim>\<open>write\<close>.
\<close>

fun write_stream :: "stream \<Rightarrow> pystr \<Rightarrow> (unit, 'e) prog" where
  "write_stream NoStream s w = (Inl (Exn AttributeError (str ''write'')), w)"
| "write_stream (Dest n) s w = (Inr (), w\<lparr>console := (console w)(n := console w n @ s)\<rparr>)"
| "write_stream (TeeWriter h orig) s w =
     (case write_stream orig s w of
        (Inl e, w') \<Rightarrow> (Inl e, w')
      | (Inr u, w') \<Rightarrow> file_write h s w')"

text \<open>\<^verbatim>\<open>print(s)\<close>: silent when \<^verbatim>\<open>sys.stdout\<close> is \<^verbatim>\<open>None\<close>, otherwise the text and a newline.\<close>

definition py_print :: "pystr \<Rightarrow> (unit, 'e) prog" where
  "py_print s =
     pbind (emit (Print s)) (\<lambda>u w.
       if sys_stdout w = NoStream then (Inr (), w) else write_stream (sys_stdout w) (s @ [10]) w)"

text \<open>
  \<^verbatim>\<open>open(path, "w")\<close> of the log: raises \<^verbatim>\<open>OSError\<close> where the path cannot be written, otherwise
  creates the empty file and a fresh handle, whose number it returns.
\<close>

definition open_log :: "pystr \<Rightarrow> (nat, 'e) prog" where
  "open_log p w =
     (if p \<in> unwritable w then (Inl (Exn OSError p), w)
      else (Inr (length (handles w)),
            w\<lparr>files := (files w)(p \<mapsto> Text []),
              handles := handles w @ [\<lparr>lf_path = p, lf_data = [], lf_closed = False\<rparr>]\<rparr>))"

text \<open>\<^verbatim>\<open>_TeeWriter.close\<close>: the log is closed and its data is on disk.\<close>

definition close_log :: "nat \<Rightarrow> (unit, 'e) prog" where
  "close_log h w =
     (if h < length (handles w) \<and> \<not> lf_closed (handles w ! h)
      then (Inr (), w\<lparr>files := (files w)(lf_path (handles w ! h) \<mapsto> Text (lf_data (handles w ! h))),
                    handles := (handles w)[h := (handles w ! h)\<lparr>lf_closed := True\<rparr>]\<rparr>)
      else (Inr (), w))"

text \<open>
  \<^verbatim>\<open>start_log\<close> sets \<^verbatim>\<open>_orig_stdout\<close> before the log is opened, and \<^verbatim>\<open>_tee\<close> and \<^verbatim>\<open>sys.stdout\<close> only
  after.
\<close>

definition start_log :: "pystr \<Rightarrow> (unit, 'e) prog" where
  "start_log output_dir =
     pbind (emit (Start_log output_dir)) (\<lambda>u w0.
       (let w1 = w0\<lparr>orig_stdout := sys_stdout w0\<rparr> in
        case open_log (output_dir @ str ''/log.txt'') w1 of
          (Inl e, w2) \<Rightarrow> (Inl e, w2)
        | (Inr h, w2) \<Rightarrow>
            (Inr (), w2\<lparr>tee := Some (h, orig_stdout w2),
                       sys_stdout := TeeWriter h (orig_stdout w2)\<rparr>)))"

definition stop_log :: "(unit, 'e) prog" where
  "stop_log =
     pbind (emit Stop_log) (\<lambda>u w.
       (case tee w of
          None \<Rightarrow> (Inr (), w)
        | Some (h, orig) \<Rightarrow>
            pbind (close_log h) (\<lambda>u w'. (Inr (), w'\<lparr>tee := None, orig_stdout := NoStream\<rparr>))
              (w\<lparr>sys_stdout := orig_stdout w\<rparr>)))"

section \<open>The composer: \<^verbatim>\<open>save_all\<close>\<close>

text \<open>
  A float is modelled by the rational number it stands for. \<^verbatim>\<open>round(x, 1)\<close> rounds the exact
  value to one decimal place, ties to the even digit, and \<^verbatim>\<open>f"{x:.0f}"\<close> does so to no decimal
  place, with the sign of \<open>x\<close>.
\<close>

definition round_half_even :: "rat \<Rightarrow> int" where
  "round_half_even x =
     (let f = \<lfloor>x\<rfloor>; r = x - of_int f in
      if r < 1 / 2 then f else if 1 / 2 < r then f + 1 else if even f then f else f + 1)"

definition py_round1 :: "rat \<Rightarrow> rat" where
  "py_round1 x = of_int (round_half_even (x * 10)) / 10"

definition format_0f :: "rat \<Rightarrow> pystr" where
  "format_0f x = (if x < 0 then str ''-'' else []) @ str_of_nat (nat \<bar>round_half_even x\<bar>)"

record agent_config =
  model :: pystr

record config =
  input_query :: pystr
  agents :: "(pystr \<times> agent_config) list"

text \<open>\<^verbatim>\<open>d.get(k, default)\<close> on a dictionary kept as an association list.\<close>

definition dict_get :: "('k \<times> 'v) list \<Rightarrow> 'k \<Rightarrow> 'v \<Rightarrow> 'v" where
  "dict_get d k dflt = (case map_of d k of None \<Rightarrow> dflt | Some v \<Rightarrow> v)"

text \<open>\<^verbatim>\<open>Path.name\<close>: the text after the last separator.\<close>

definition path_name :: "pystr \<Rightarrow> pystr" where
  "path_name p = rev (takeWhile (\<lambda>c. c \<noteq> 47) (rev p))"

text \<open>\<^verbatim>\<open>open(path, "w")\<close> for the two reports, and what the writes leave in the file.\<close>

definition open_w :: "pystr \<Rightarrow> (unit, 'e) prog" where
  "open_w p w =
     (if p \<in> unwritable w then (Inl (Exn OSError p), w)
      else (Inr (), w\<lparr>files := (files w)(p \<mapsto> Text [])\<rparr>))"

definition put_file :: "pystr \<Rightarrow> content \<Rightarrow> (unit, 'e) prog" where
  "put_file p c w = (Inr (), w\<lparr>files := (files w)(p \<mapsto> c)\<rparr>)"

text \<open>
  \<^verbatim>\<open>yaml.dump(data, f, default_flow_style=False, sort_keys=False)\<close> writes the mapping in block
  style with its keys in the dictionary's own order.
\<close>

definition yaml_dump :: "(pystr \<times> yaml) list \<Rightarrow> content" where
  "yaml_dump d = Yaml (YMap d)"

text \<open>What the five writes leave in the Markdown report.\<close>

definition md_text :: "result \<Rightarrow> pystr \<Rightarrow> reading \<Rightarrow> pystr" where
  "md_text result agents_str t =
     str ''# MBA Strategy Report v4'' @ [10, 10]
     @ str ''**Generated:** '' @ isoformat t @ [10]
     @ str ''**Agents:** '' @ agents_str @ [10, 10] @ str ''---'' @ [10, 10]
     @ dict_get result (str ''recommendation'') []
     @ [10, 10] @ str ''---'' @ [10, 10]
     @ dict_get result (str ''action_plan'') []"

text \<open>The dictionary literal handed to \<^verbatim>\<open>yaml.dump\<close>.\<close>

definition meta_record :: "config \<Rightarrow> reading \<Rightarrow> rat \<Rightarrow> (pystr \<times> yaml) list" where
  "meta_record config t elapsed =
     [(str ''timestamp'', YStr (isoformat t)),
      (str ''input_query'', YStr (input_query config)),
      (str ''auto_approve'', YBool False),
      (str ''models'', YMap (map (\<lambda>(k, v). (k, YStr (model v))) (agents config))),
      (str ''elapsed_seconds'', YFloat (py_round1 elapsed))]"

definition cover_para_of ::
  "pystr \<Rightarrow> nat \<Rightarrow> nat \<times> nat \<times> nat \<Rightarrow> bool \<Rightarrow> bool \<Rightarrow> length option \<Rightarrow> length option
     \<Rightarrow> document \<Rightarrow> document" where
  "cover_para_of t sz color b i space_before space_after doc =
     doc\<lparr>body := body doc @
       [Cover \<lparr>cp_text = t, cp_size = Pt sz, cp_color = color, cp_bold = b, cp_italic = i,
               cp_space_before = space_before, cp_space_after = space_after\<rparr>]\<rparr>"

definition NAVY :: "nat \<times> nat \<times> nat" where "NAVY = (31, 78, 121)"
definition ACCENT :: "nat \<times> nat \<times> nat" where "ACCENT = (47, 117, 181)"
definition DARK_GRAY :: "nat \<times> nat \<times> nat" where "DARK_GRAY = (89, 89, 89)"
definition LIGHT_GRAY :: "nat \<times> nat \<times> nat" where "LIGHT_GRAY = (140, 140, 140)"

text \<open>The cover page: the document as it stands at the first page break.\<close>

definition cover_page :: "config \<Rightarrow> pystr \<Rightarrow> reading \<Rightarrow> document" where
  "cover_page config agents_str t =
     (let doc = DocxDocument\<lparr>top_margin := Some (Cm (5 / 2)), bottom_margin := Some (Cm (5 / 2)),
                             left_margin := Some (Cm (5 / 2)), right_margin := Some (Cm (5 / 2)),
                             font_name := Some (str ''Calibri''), font_size := Some (Pt 11)\<rparr>;
          doc = cover_para_of (str ''MBA STRATEGY REPORT'') 36 NAVY True False
                  (Some (Cm 6)) (Some (Pt 4)) doc;
          doc = cover_para_of (replicate 30 9473) 10 ACCENT False False
                  (Some (Pt 0)) (Some (Pt 12)) doc;
          doc = cover_para_of ([8220] @ input_query config @ [8221]) 14 DARK_GRAY False True
                  None (Some (Cm (3 / 2))) doc;
          doc = cover_para_of (str ''Generated: '' @ long_date t) 10 LIGHT_GRAY False False
                  None (Some (Pt 2)) doc;
          doc = cover_para_of (str ''Models: '' @ agents_str) 10 LIGHT_GRAY False False
                  None (Some (Pt 0)) doc
      in add_page_break doc)"

text \<open>The document handed to \<^verbatim>\<open>doc.save\<close>.\<close>

definition compose_docx :: "result \<Rightarrow> config \<Rightarrow> pystr \<Rightarrow> reading \<Rightarrow> document" where
  "compose_docx result config agents_str t =
     (let doc = cover_page config agents_str t;
          recommendation = dict_get result (str ''recommendation'') [];
          doc = (if recommendation \<noteq> [] then md_lines_to_docx doc recommendation else doc);
          doc = add_page_break doc;
          action_plan = dict_get result (str ''action_plan'') [];
          doc = (if action_plan \<noteq> [] then md_lines_to_docx doc action_plan else doc)
      in doc)"

text \<open>
  The body of the \<^verbatim>\<open>try\<close>: the imports, the composition in memory, \<^verbatim>\<open>doc.save\<close> and the notice.
  A python-docx call that fails raises the backend's fault for its stage. Until \<^verbatim>\<open>doc.save\<close> the
  document exists in memory only, so which call of a stage fails makes no difference to what is
  left behind; the clock, read for the cover page in the middle of the composition, is read
  here before the composition's fault.
\<close>

definition fault :: "exn option \<Rightarrow> (unit, 'e) prog" where
  "fault f = (case f of None \<Rightarrow> ret () | Some e \<Rightarrow> raise e)"

definition docx_body :: "result \<Rightarrow> config \<Rightarrow> pystr \<Rightarrow> pystr \<Rightarrow> (unit, 'e) prog" where
  "docx_body result config agents_str docx_path =
     pbind (\<lambda>w. fault (import_fault (docx w)) w) (\<lambda>u.
     pbind now (\<lambda>t.
     pbind (\<lambda>w. fault (compose_fault (docx w)) w) (\<lambda>u.
     pbind (\<lambda>w. fault (save_fault (docx w)) w) (\<lambda>u.
     pbind (put_file docx_path (Docx (compose_docx result config agents_str t))) (\<lambda>u.
     py_print (str ''DOCX:     '' @ docx_path))))))"

text \<open>The two handlers: \<^verbatim>\<open>except ImportError\<close>, then \<^verbatim>\<open>except Exception as e\<close>.\<close>

definition docx_handlers :: "(unit, 'e) prog \<Rightarrow> (unit, 'e) prog" where
  "docx_handlers m w =
     (case m w of
        (Inr u, w') \<Rightarrow> (Inr u, w')
      | (Inl e, w') \<Rightarrow>
          (if is_ImportError e then py_print (str ''[SKIP] python-docx not installed'') w'
           else if is_Exception e
           then py_print (str ''[WARNING] DOCX generation failed: '' @ exn_msg e) w'
           else (Inl e, w')))"

definition save_all :: "result \<Rightarrow> config \<Rightarrow> pystr \<Rightarrow> rat \<Rightarrow> (unit, 'e) prog" where
  "save_all result config output_dir elapsed =
     (let ts = path_name output_dir;
          agents_str = join (str '', '') (map (\<lambda>(k, v). k @ str ''='' @ model v) (agents config));
          md_path = output_dir @ str ''/report_'' @ ts @ str ''.md'';
          meta_path = output_dir @ str ''/meta.yaml'';
          docx_path = output_dir @ str ''/report_'' @ ts @ str ''.docx''
      in
      pbind (open_w md_path) (\<lambda>u.
      pbind now (\<lambda>t1.
      pbind (put_file md_path (Text (md_text result agents_str t1))) (\<lambda>u.
      pbind (py_print (str ''Markdown: '' @ md_path)) (\<lambda>u.
      pbind (open_w meta_path) (\<lambda>u.
      pbind now (\<lambda>t2.
      pbind (put_file meta_path (yaml_dump (meta_record config t2 elapsed))) (\<lambda>u.
      pbind (py_print (str ''Meta:     '' @ meta_path)) (\<lambda>u.
      pbind (docx_handlers (docx_body result config agents_str docx_path)) (\<lambda>u.
      pbind (py_print (str ''Log:      '' @ output_dir @ str ''/log.txt'')) (\<lambda>u.
      py_print ([10] @ str ''All outputs saved to: '' @ output_dir))))))))))))"

section \<open>The controller: \<^verbatim>\<open>run\<close>\<close>

text \<open>
  The agent module as \<^verbatim>\<open>run\<close> uses it: \<^verbatim>\<open>build_graph\<close> gives the engine's first state or raises,
  and \<^verbatim>\<open>invoke\<close> and \<^verbatim>\<open>get_state\<close> act on the engine's state and may raise.
\<close>

record 'e mba =
  build_graph :: "exn + 'e"
  INPUT_QUERY :: pystr
  invoke :: "command \<Rightarrow> 'e \<Rightarrow> (exn + result) \<times> 'e"
  get_state :: "'e \<Rightarrow> (exn + snapshot) \<times> 'e"

definition agent_invoke :: "'e mba \<Rightarrow> command \<Rightarrow> (result, 'e) prog" where
  "agent_invoke mba c =
     pbind (emit (Invoke c)) (\<lambda>u w.
       case invoke mba c (agent w) of
         (Inl e, a) \<Rightarrow> (Inl e, w\<lparr>agent := a, trace := trace w @ [Raised e]\<rparr>)
       | (Inr r, a) \<Rightarrow> (Inr r, w\<lparr>agent := a\<rparr>))"

definition agent_get_state :: "'e mba \<Rightarrow> (snapshot, 'e) prog" where
  "agent_get_state mba =
     pbind (emit Get_state) (\<lambda>u w.
       case get_state mba (agent w) of
         (Inl e, a) \<Rightarrow> (Inl e, w\<lparr>agent := a, trace := trace w @ [Raised e]\<rparr>)
       | (Inr r, a) \<Rightarrow> (Inr r, w\<lparr>agent := a\<rparr>))"

text \<open>\<^verbatim>\<open>input(prompt)\<close>: the operator's next line, or \<^verbatim>\<open>EOFError\<close> when there is none.\<close>

definition py_input :: "pystr \<Rightarrow> (pystr, 'e) prog" where
  "py_input prompt =
     pbind (emit (Input prompt)) (\<lambda>u w.
       case replies w of
         [] \<Rightarrow> (Inl (Exn EOFError (str ''EOF when reading a line'')), w)
       | l # ls \<Rightarrow> (Inr l, w\<lparr>replies := ls\<rparr>))"

definition hr :: "pystr \<Rightarrow> pystr \<Rightarrow> pystr" where
  "hr border margin =
     str ''<hr style='' @ [39] @ str ''border:'' @ border @ str ''; margin:'' @ margin @ [39]
     @ str ''>''"

text \<open>
  The body of the loop over a task's interrupts. The loops carry \<^verbatim>\<open>gate_num\<close> and \<^verbatim>\<open>result\<close>.
\<close>

definition handle_interrupt :: "'e mba \<Rightarrow> interrupt \<Rightarrow> nat \<Rightarrow> (nat \<times> result, 'e) prog" where
  "handle_interrupt mba intr gate_num0 =
     (let gate_num = gate_num0 + 1 in
      pbind (emit (Display_HTML (hr (str ''3px solid #2E75B6'') (str ''24px 0 8px 0'')))) (\<lambda>u.
      pbind (emit (Display_Markdown (str ''### Human Input '' @ str_of_nat gate_num))) (\<lambda>u.
      pbind (emit (Display_Markdown (intr_value intr))) (\<lambda>u.
      pbind (emit (Display_HTML (hr (str ''3px solid #2E75B6'') (str ''8px 0 16px 0'')))) (\<lambda>u.
      pbind (py_input (str ''approve / or type feedback > '')) (\<lambda>line.
      let feedback = strip line;
          feedback = (if feedback = [] then str ''approved'' else feedback)
      in pbind (agent_invoke mba (Resume feedback)) (\<lambda>result. ret (gate_num, result))))))))"

fun resolve_interrupts ::
  "'e mba \<Rightarrow> interrupt list \<Rightarrow> nat \<times> result \<Rightarrow> (nat \<times> result, 'e) prog" where
  "resolve_interrupts mba [] st w = (Inr st, w)"
| "resolve_interrupts mba (intr # intrs) st w =
     (case handle_interrupt mba intr (fst st) w of
        (Inl e, w') \<Rightarrow> (Inl e, w')
      | (Inr st', w') \<Rightarrow> resolve_interrupts mba intrs st' w')"

text \<open>The loop over the snapshot's tasks, with the \<^verbatim>\<open>hasattr\<close> test.\<close>

fun scan_tasks :: "'e mba \<Rightarrow> task list \<Rightarrow> nat \<times> result \<Rightarrow> (nat \<times> result, 'e) prog" where
  "scan_tasks mba [] st w = (Inr st, w)"
| "scan_tasks mba (t # ts) st w =
     (case interrupts t of
        None \<Rightarrow> scan_tasks mba ts st w
      | Some intrs \<Rightarrow>
          (case resolve_interrupts mba intrs st w of
             (Inl e, w') \<Rightarrow> (Inl e, w')
           | (Inr st', w') \<Rightarrow> scan_tasks mba ts st' w'))"

text \<open>
  \<^verbatim>\<open>while True\<close>: the loop has no bound of its own, so the model counts its iterations down from
  \<open>fuel\<close> and gives \<open>None\<close> when the fuel does not suffice.
\<close>

fun controller_loop ::
  "'e mba \<Rightarrow> nat \<Rightarrow> nat \<times> result \<Rightarrow> 'e world \<Rightarrow> ((exn + nat \<times> result) \<times> 'e world) option" where
  "controller_loop mba 0 st w = None"
| "controller_loop mba (Suc fuel) st w =
     (case agent_get_state mba w of
        (Inl e, w') \<Rightarrow> Some (Inl e, w')
      | (Inr snapshot, w') \<Rightarrow>
          (if snapshot_next snapshot = [] then Some (Inr st, w')
           else (case scan_tasks mba (tasks snapshot) st w' of
                   (Inl e, w'') \<Rightarrow> Some (Inl e, w'')
                 | (Inr st', w'') \<Rightarrow> controller_loop mba fuel st' w'')))"

text \<open>The file system calls of \<^verbatim>\<open>run\<close>.\<close>

definition path_exists :: "pystr \<Rightarrow> 'e world \<Rightarrow> bool" where
  "path_exists p w = (p \<in> dirs w \<or> files w p \<noteq> None)"

definition mkdir :: "pystr \<Rightarrow> (unit, 'e) prog" where
  "mkdir p w =
     (if p \<in> unwritable w \<or> files w p \<noteq> None then (Inl (Exn OSError p), w)
      else (Inr (), w\<lparr>dirs := insert p (dirs w)\<rparr>))"

definition copytree :: "pystr \<Rightarrow> pystr \<Rightarrow> (unit, 'e) prog" where
  "copytree src dst w =
     (if path_exists dst w \<or> dst \<in> unwritable w then (Inl (Exn OSError dst), w)
      else (Inr (),
            w\<lparr>dirs := insert dst (dirs w),
              files := (\<lambda>p. if startswith p (dst @ str ''/'')
                            then files w (src @ drop (length dst) p) else files w p)\<rparr>))"

definition DRIVE_OUTPUT_DIR :: pystr where
  "DRIVE_OUTPUT_DIR = str ''/content/drive/MyDrive/AI_Essentials_Final_Project''"

definition copy_to_drive :: "pystr \<Rightarrow> (unit, 'e) prog" where
  "copy_to_drive output_dir w =
     (if path_exists (str ''/content/drive/MyDrive'') w
      then (let drive_dest = DRIVE_OUTPUT_DIR @ str ''/'' @ path_name output_dir in
            pbind (mkdir DRIVE_OUTPUT_DIR) (\<lambda>u.
            pbind (copytree output_dir drive_dest) (\<lambda>u.
            py_print (str ''Drive:    '' @ drive_dest))) w)
      else py_print (str ''[SKIP] Google Drive not mounted '' @ [8212] @ str '' Drive save skipped'') w)"

text \<open>Lines 65 to 75: what \<^verbatim>\<open>run\<close> does before the \<^verbatim>\<open>try\<close>. It returns \<^verbatim>\<open>output_dir\<close>.\<close>

definition prologue :: "'e mba \<Rightarrow> (pystr, 'e) prog" where
  "prologue mba =
     pbind (emit Build_graph) (\<lambda>u.
     pbind (\<lambda>w. case build_graph mba of Inl e \<Rightarrow> (Inl e, w) | Inr a \<Rightarrow> (Inr (), w\<lparr>agent := a\<rparr>)) (\<lambda>u.
     pbind now (\<lambda>t.
     let output_dir = stamp t in
     pbind (mkdir output_dir) (\<lambda>u.
     pbind (\<lambda>w. py_print (str ''Output dir: '' @ cwd w @ str ''/'' @ output_dir @ [10]) w) (\<lambda>u.
     pbind (start_log output_dir) (\<lambda>u.
     ret output_dir))))))"

text \<open>Lines 102 to 120: what follows the loop inside the \<^verbatim>\<open>try\<close>.\<close>

definition epilogue :: "config \<Rightarrow> pystr \<Rightarrow> reading \<Rightarrow> result \<Rightarrow> (result, 'e) prog" where
  "epilogue config_dict output_dir t0 result =
     pbind now (\<lambda>t1.
     let elapsed = seconds t1 - seconds t0 in
     pbind (save_all result config_dict output_dir elapsed) (\<lambda>u.
     pbind (copy_to_drive output_dir) (\<lambda>u.
     pbind (emit (Display_HTML (hr (str ''4px solid #1B2A4A'') (str ''24px 0'')))) (\<lambda>u.
     pbind (emit (Display_Markdown (str ''## Agent Complete''))) (\<lambda>u.
     pbind (py_print (str ''Elapsed: '' @ format_0f elapsed @ str ''s'')) (\<lambda>u.
     ret result))))))"

text \<open>The \<^verbatim>\<open>try\<close> block.\<close>

definition run_body ::
  "'e mba \<Rightarrow> config \<Rightarrow> pystr \<Rightarrow> nat \<Rightarrow> 'e world \<Rightarrow> ((exn + result) \<times> 'e world) option" where
  "run_body mba config_dict output_dir fuel w =
     (case now w of (Inl e, w1) \<Rightarrow> Some (Inl e, w1) | (Inr t0, w1) \<Rightarrow>
      (case agent_invoke mba (Start (INPUT_QUERY mba)) w1 of
         (Inl e, w2) \<Rightarrow> Some (Inl e, w2)
       | (Inr result, w2) \<Rightarrow>
           (case controller_loop mba fuel (0, result) w2 of
              None \<Rightarrow> None
            | Some (Inl e, w3) \<Rightarrow> Some (Inl e, w3)
            | Some (Inr st, w3) \<Rightarrow> Some (epilogue config_dict output_dir t0 (snd st) w3))))"

definition run ::
  "'e mba \<Rightarrow> config \<Rightarrow> nat \<Rightarrow> 'e world \<Rightarrow> ((exn + result) \<times> 'e world) option" where
  "run mba config_dict fuel w =
     (case prologue mba w of
        (Inl e, w1) \<Rightarrow> Some (Inl e, w1)
      | (Inr output_dir, w1) \<Rightarrow>
          map_option (py_finally stop_log) (run_body mba config_dict output_dir fuel w1))"

section \<open>Notions used to state the properties\<close>

text \<open>Any number of \<^verbatim>\<open>print\<close> calls in a row, whatever each one's outcome.\<close>

fun prints :: "pystr list \<Rightarrow> 'e world \<Rightarrow> 'e world" where
  "prints [] w = w"
| "prints (s # ss) w = prints ss (snd (py_print s w))"

text \<open>
  A stream that can be written: every log it copies to is open. \<^verbatim>\<open>print\<close> succeeds when
  \<^verbatim>\<open>sys.stdout\<close> is such a stream or \<^verbatim>\<open>None\<close>.
\<close>

fun stream_ok :: "logfile list \<Rightarrow> stream \<Rightarrow> bool" where
  "stream_ok hs NoStream = False"
| "stream_ok hs (Dest n) = True"
| "stream_ok hs (TeeWriter h d) = (stream_ok hs d \<and> h < length hs \<and> \<not> lf_closed (hs ! h))"

definition stdout_ok :: "'e world \<Rightarrow> bool" where
  "stdout_ok w = (sys_stdout w = NoStream \<or> stream_ok (handles w) (sys_stdout w))"

text \<open>The interrupt requests a task collection reports, in its order.\<close>

fun interrupts_of :: "task list \<Rightarrow> interrupt list" where
  "interrupts_of [] = []"
| "interrupts_of (t # ts) = (case interrupts t of None \<Rightarrow> [] | Some intrs \<Rightarrow> intrs) @ interrupts_of ts"

text \<open>
  The events of one gate, numbered \<open>g\<close>, answered by the line \<open>l\<close>: the banner, the prompt, and
  the resume invocation with value \<open>v\<close>.
\<close>

definition gate_events :: "nat \<Rightarrow> interrupt \<Rightarrow> pystr \<Rightarrow> event list" where
  "gate_events g intr v =
     [Display_HTML (hr (str ''3px solid #2E75B6'') (str ''24px 0 8px 0'')),
      Display_Markdown (str ''### Human Input '' @ str_of_nat g),
      Display_Markdown (intr_value intr),
      Display_HTML (hr (str ''3px solid #2E75B6'') (str ''8px 0 16px 0'')),
      Input (str ''approve / or type feedback > ''),
      Invoke (Resume v)]"

text \<open>The resume value for a reply line: the trimmed line, or the token when that is empty.\<close>

definition resume_value :: "pystr \<Rightarrow> pystr" where
  "resume_value l = (if strip l = [] then str ''approved'' else strip l)"

text \<open>The events of the gates after gate \<open>g\<close>, one per interrupt, each with its own reply.\<close>

fun gates_events :: "nat \<Rightarrow> interrupt list \<Rightarrow> pystr list \<Rightarrow> event list" where
  "gates_events g (intr # intrs) (l # ls) =
     gate_events (Suc g) intr (resume_value l) @ gates_events (Suc g) intrs ls"
| "gates_events g intrs ls = []"

definition is_resume :: "event \<Rightarrow> bool" where
  "is_resume ev = (case ev of Invoke (Resume v) \<Rightarrow> True | _ \<Rightarrow> False)"

text \<open>What a write leaves alone: everything but the console, the logs' data and the trace.\<close>

definition same_globals :: "'e world \<Rightarrow> 'e world \<Rightarrow> bool" where
  "same_globals w w' =
     (sys_stdout w' = sys_stdout w \<and> tee w' = tee w \<and> orig_stdout w' = orig_stdout w
      \<and> files w' = files w \<and> dirs w' = dirs w \<and> unwritable w' = unwritable w
      \<and> docx w' = docx w \<and> ticks w' = ticks w \<and> clock w' = clock w \<and> cwd w' = cwd w
      \<and> replies w' = replies w \<and> agent w' = agent w
      \<and> length (handles w') = length (handles w)
      \<and> (\<forall>k. lf_closed (handles w' ! k) = lf_closed (handles w ! k)
             \<and> lf_path (handles w' ! k) = lf_path (handles w ! k)
             \<and> (lf_closed (handles w ! k) \<longrightarrow> handles w' ! k = handles w ! k)))"

text \<open>The world a \<^verbatim>\<open>print\<close> leaves.\<close>

definition after_print :: "pystr \<Rightarrow> 'e world \<Rightarrow> 'e world" where
  "after_print s w = snd (py_print s w)"

text \<open>
  The exception python-docx raises in the \<^verbatim>\<open>try\<close> block, if any: the fault of the first stage that
  has one. And the notice the handlers print for an exception they catch.
\<close>

definition first_fault :: "docx_backend \<Rightarrow> exn option" where
  "first_fault b =
     (case import_fault b of
        Some e \<Rightarrow> Some e
      | None \<Rightarrow> (case compose_fault b of Some e \<Rightarrow> Some e | None \<Rightarrow> save_fault b))"

definition handler_notice :: "exn \<Rightarrow> pystr" where
  "handler_notice e =
     (if is_ImportError e then str ''[SKIP] python-docx not installed''
      else str ''[WARNING] DOCX generation failed: '' @ exn_msg e)"

definition agents_str_of :: "config \<Rightarrow> pystr" where
  "agents_str_of config =
     join (str '', '') (map (\<lambda>(k, v). k @ str ''='' @ model v) (agents config))"

definition md_path_of :: "pystr \<Rightarrow> pystr" where
  "md_path_of output_dir = output_dir @ str ''/report_'' @ path_name output_dir @ str ''.md''"

definition meta_path_of :: "pystr \<Rightarrow> pystr" where
  "meta_path_of output_dir = output_dir @ str ''/meta.yaml''"

definition docx_path_of :: "pystr \<Rightarrow> pystr" where
  "docx_path_of output_dir = output_dir @ str ''/report_'' @ path_name output_dir @ str ''.docx''"

text \<open>
  The world in which the \<^verbatim>\<open>try\<close> statement of \<^verbatim>\<open>save_all\<close> starts when nothing before it raised:
  both reports written and announced, the clock read twice.
\<close>

definition reports_written :: "result \<Rightarrow> config \<Rightarrow> pystr \<Rightarrow> rat \<Rightarrow> 'e world \<Rightarrow> 'e world" where
  "reports_written result config d elapsed w =
     (let w3 = w\<lparr>ticks := Suc (ticks w),
                 files := (files w)(md_path_of d \<mapsto>
                   Text (md_text result (agents_str_of config) (clock w (ticks w))))\<rparr>;
          w4 = after_print (str ''Markdown: '' @ md_path_of d) w3;
          w7 = w4\<lparr>ticks := Suc (Suc (ticks w)),
                  files := (files w4)(meta_path_of d \<mapsto>
                    yaml_dump (meta_record config (clock w (Suc (ticks w))) elapsed))\<rparr>
      in after_print (str ''Meta:     '' @ meta_path_of d) w7)"

subsection \<open>Example worlds and engines\<close>

definition demo_clock :: "nat \<Rightarrow> reading" where
  "demo_clock n =
     \<lparr>isoformat = str ''2026-01-05T10:00:0'' @ str_of_nat n,
      stamp = str ''20260105_100000'',
      long_date = str ''January 05, 2026'',
      seconds = of_nat n * (617 / 50)\<rparr>"

definition idle_world :: "nat world" where
  "idle_world =
     \<lparr>agent = 0, replies = [str '' ok '', []], clock = demo_clock, ticks = 0,
      cwd = str ''/content'', files = Map.empty, dirs = {}, unwritable = {}, handles = [],
      sys_stdout = Dest 0, tee = None, orig_stdout = NoStream, console = (\<lambda>n. []),
      docx = \<lparr>import_fault = None, compose_fault = None, save_fault = None\<rparr>,
      trace = []\<rparr>"

text \<open>
  An engine that pauses once, with a task that has no interrupts attribute and a task with two
  interrupt requests, and is done after two resumes.
\<close>

definition demo_result :: result where
  "demo_result = [(str ''recommendation'', str ''# Go''), (str ''action_plan'', str ''- step'')]"

definition demo_snapshot :: "nat \<Rightarrow> snapshot" where
  "demo_snapshot n =
     (if n < 3
      then \<lparr>snapshot_next = [str ''gate''],
            tasks = [Task None, Task (Some [Interrupt (str ''Scope?''), Interrupt (str ''Plan?'')])]\<rparr>
      else \<lparr>snapshot_next = [], tasks = []\<rparr>)"

definition demo_mba :: "nat mba" where
  "demo_mba =
     \<lparr>build_graph = Inr 0, INPUT_QUERY = str ''Q'',
      invoke = (\<lambda>c n. (Inr demo_result, Suc n)),
      get_state = (\<lambda>n. (Inr (demo_snapshot n), n))\<rparr>"

text \<open>The same engine, except that every resume raises.\<close>

definition failing_mba :: "nat mba" where
  "failing_mba =
     demo_mba\<lparr>invoke := (\<lambda>c n. case c of
        Start q \<Rightarrow> (Inr demo_result, Suc n)
      | Resume v \<Rightarrow> (Inl (Exn RuntimeError (str ''engine failure'')), n))\<rparr>"

text \<open>
  Events other than the teardown of the log and the record of an engine call that raised. A
  program emits quietly when all the events it adds are of this kind. An outcome and the events
  added fit together when the events are quiet, or when their last is the record of the engine
  call that raised the outcome and the ones before are quiet.
\<close>

definition quiet :: "event \<Rightarrow> bool" where
  "quiet ev = (case ev of Stop_log \<Rightarrow> False | Raised e \<Rightarrow> False | _ \<Rightarrow> True)"

definition emits_quiet :: "('a, 'e) prog \<Rightarrow> bool" where
  "emits_quiet m = (\<forall>w. \<exists>evs. trace (snd (m w)) = trace w @ evs \<and> list_all quiet evs)"

definition raise_last :: "exn + 'a \<Rightarrow> event list \<Rightarrow> bool" where
  "raise_last r evs =
     (list_all quiet evs \<or> (\<exists>pre e. evs = pre @ [Raised e] \<and> list_all quiet pre \<and> r = Inl e))"

text \<open>The engine of the examples, except that the graph cannot be built.\<close>

definition broken_mba :: "nat mba" where
  "broken_mba = demo_mba\<lparr>build_graph := Inl (Exn RuntimeError (str ''no graph''))\<rparr>"

definition demo_config :: config where
  "demo_config = \<lparr>input_query = str ''Q'', agents = [(str ''a'', \<lparr>model = str ''m''\<rparr>)]\<rparr>"

section \<open>Properties of the renderer\<close>

lemma runs_of_example:
  "add_formatted_runs [] (str ''**bold** and *italic* and plain'') =
     [add_run [],
      (add_run (str ''bold''))\<lparr>bold := Some True\<rparr>,
      add_run (str '' and ''),
      (add_run (str ''italic''))\<lparr>italic := Some True\<rparr>,
      add_run (str '' and plain'')]"
  by (simp add: add_formatted_runs_def str_def match_emphasis_def startswith_def endswith_def
      format_part_def add_run_def slice_def)

text \<open>
  C3, as the code has it: the text \<^verbatim>\<open>**bold** and *italic* and plain\<close> gives five runs, in this
  order: an empty run with no style (the text before the first match of the pattern), then
  bold \<^verbatim>\<open>bold\<close>, a run \<^verbatim>\<open> and \<close> with no style, italic \<^verbatim>\<open>italic\<close>, and a run \<^verbatim>\<open> and plain\<close> with no
  style. The texts of the runs, put together in order, are the input with its markers stripped.
\<close>

theorem add_formatted_runs_example:
  "add_formatted_runs [] (str ''**bold** and *italic* and plain'') =
     [\<lparr>run_text = [], bold = None, italic = None\<rparr>,
      \<lparr>run_text = str ''bold'', bold = Some True, italic = None\<rparr>,
      \<lparr>run_text = str '' and '', bold = None, italic = None\<rparr>,
      \<lparr>run_text = str ''italic'', bold = None, italic = Some True\<rparr>,
      \<lparr>run_text = str '' and plain'', bold = None, italic = None\<rparr>]
   \<and> concat (map run_text (add_formatted_runs [] (str ''**bold** and *italic* and plain'')))
       = str ''bold and italic and plain''"
  by (simp add: runs_of_example add_run_def) (simp add: str_def)

text \<open>
  C3, as the claim states it, fails: the runs are neither three nor the four that the claim
  lists.
\<close>

theorem add_formatted_runs_not_as_claimed:
  "length (add_formatted_runs [] (str ''**bold** and *italic* and plain'')) \<noteq> 3
   \<and> add_formatted_runs [] (str ''**bold** and *italic* and plain'') \<noteq>
       [\<lparr>run_text = str ''bold'', bold = Some True, italic = None\<rparr>,
        \<lparr>run_text = str '' and '', bold = None, italic = None\<rparr>,
        \<lparr>run_text = str ''italic'', bold = None, italic = Some True\<rparr>,
        \<lparr>run_text = str '' and plain'', bold = None, italic = None\<rparr>]"
  by (simp add: runs_of_example)

lemma md_line_to_docx_spec:
  "md_line_to_docx doc line = doc\<lparr>body := body doc @ spec_render (spec_classify line)\<rparr>"
proof -
  have n: "(4::nat) = Suc (Suc (Suc (Suc 0)))" "(3::nat) = Suc (Suc (Suc 0))"
    "(2::nat) = Suc (Suc 0)"
    by simp_all
  show ?thesis
    by (simp add: md_line_to_docx_def spec_classify_def spec_prefixes_def Let_def
        add_heading_def add_paragraph_def str_def n)
qed

lemma foldl_md_line_to_docx:
  "foldl md_line_to_docx doc ls =
     doc\<lparr>body := body doc @ concat (map (\<lambda>l. spec_render (spec_classify l)) ls)\<rparr>"
  by (induction ls arbitrary: doc) (simp_all add: md_line_to_docx_spec)

text \<open>
  C6: the renderer classifies each line, trimmed of white space, by the specification's table of
  prefixes in its order of precedence: \<^verbatim>\<open>### \<close>, \<^verbatim>\<open>## \<close> and \<^verbatim>\<open># \<close> give a heading of level 3, 2
  and 1, \<^verbatim>\<open>- \<close> and \<^verbatim>\<open>* \<close> a bullet item, any other line that is not blank a paragraph, and a
  blank line no element. This holds of one line and of every line of a text, and the line
  \<^verbatim>\<open>### Title\<close> is a heading of level 3.
\<close>

theorem md_lines_classified_by_prefix:
  "md_line_to_docx doc line = doc\<lparr>body := body doc @ spec_render (spec_classify line)\<rparr>
   \<and> md_lines_to_docx doc text =
       doc\<lparr>body := body doc @ concat (map (\<lambda>l. spec_render (spec_classify l)) (split_nl text))\<rparr>
   \<and> md_line_to_docx doc (str ''### Title'') = doc\<lparr>body := body doc @ [Heading 3 (str ''Title'')]\<rparr>"
proof -
  have "spec_classify (str ''### Title'') = (Heading_block 3, str ''Title'')"
    by (simp add: spec_classify_def spec_prefixes_def str_def strip_def isspace_def
        startswith_def)
  then show ?thesis
    by (simp add: md_line_to_docx_spec md_lines_to_docx_def foldl_md_line_to_docx)
qed
section \<open>Properties of the log tee\<close>

lemma same_globals_refl: "same_globals w w"
  by (simp add: same_globals_def)

lemma same_globals_trans: "same_globals w w' \<Longrightarrow> same_globals w' w'' \<Longrightarrow> same_globals w w''"
  by (simp add: same_globals_def)

lemma file_write_frame: "file_write h s w = (r, w') \<Longrightarrow> same_globals w w' \<and> trace w' = trace w"
  by (auto simp: file_write_def same_globals_def nth_list_update split: if_splits)

lemma write_stream_frame:
  "write_stream d s w = (r, w') \<Longrightarrow> same_globals w w' \<and> trace w' = trace w"
proof (induction d arbitrary: w r w')
  case NoStream
  then show ?case by (auto simp: same_globals_def)
next
  case (Dest n)
  then show ?case by (auto simp: same_globals_def)
next
  case (TeeWriter h d)
  show ?case
  proof (cases "write_stream d s w")
    case (Pair r1 w1)
    then have 1: "same_globals w w1 \<and> trace w1 = trace w" by (rule TeeWriter.IH)
    show ?thesis
    proof (cases r1)
      case (Inl e)
      with Pair TeeWriter.prems 1 show ?thesis by simp
    next
      case (Inr u)
      with Pair TeeWriter.prems have "file_write h s w1 = (r, w')" by simp
      then have "same_globals w1 w' \<and> trace w' = trace w1" by (rule file_write_frame)
      with 1 show ?thesis using same_globals_trans by fastforce
    qed
  qed
qed

lemma py_print_frame:
  "same_globals w (snd (py_print s w)) \<and> trace (snd (py_print s w)) = trace w @ [Print s]"
proof -
  let ?w = "w\<lparr>trace := trace w @ [Print s]\<rparr>"
  have 0: "same_globals w ?w" by (simp add: same_globals_def)
  show ?thesis
  proof (cases "sys_stdout w = NoStream")
    case True
    then show ?thesis using 0 by (simp add: py_print_def pbind_def emit_def)
  next
    case False
    obtain r w' where e: "write_stream (sys_stdout w) (s @ [10]) ?w = (r, w')"
      by (cases "write_stream (sys_stdout w) (s @ [10]) ?w")
    then have "same_globals ?w w' \<and> trace w' = trace ?w" by (rule write_stream_frame)
    with 0 have "same_globals w w' \<and> trace w' = trace w @ [Print s]"
      using same_globals_trans by fastforce
    with False e show ?thesis by (simp add: py_print_def pbind_def emit_def)
  qed
qed

lemma prints_frame: "same_globals w (prints ss w)"
proof (induction ss arbitrary: w)
  case Nil
  show ?case by (simp add: same_globals_refl)
next
  case (Cons s ss)
  have "same_globals w (snd (py_print s w))" by (simp add: py_print_frame)
  moreover have "same_globals (snd (py_print s w)) (prints ss (snd (py_print s w)))"
    by (rule Cons.IH)
  ultimately show ?case using same_globals_trans by fastforce
qed

lemma start_log_ok:
  assumes "start_log output_dir w = (Inr (), w1)"
  shows "tee w1 = Some (length (handles w), sys_stdout w) \<and> orig_stdout w1 = sys_stdout w
         \<and> sys_stdout w1 = TeeWriter (length (handles w)) (sys_stdout w)
         \<and> handles w1 = handles w @
             [\<lparr>lf_path = output_dir @ str ''/log.txt'', lf_data = [], lf_closed = False\<rparr>]"
  using assms
  by (auto simp: start_log_def pbind_def emit_def open_log_def Let_def split: if_splits)

lemma stop_log_open:
  assumes "tee w = Some (h, d)" "h < length (handles w)" "\<not> lf_closed (handles w ! h)"
  shows "fst (stop_log w) = Inr () \<and> sys_stdout (snd (stop_log w)) = orig_stdout w
     \<and> tee (snd (stop_log w)) = None \<and> orig_stdout (snd (stop_log w)) = NoStream
     \<and> lf_closed (handles (snd (stop_log w)) ! h)
     \<and> lf_path (handles (snd (stop_log w)) ! h) = lf_path (handles w ! h)
     \<and> lf_data (handles (snd (stop_log w)) ! h) = lf_data (handles w ! h)
     \<and> files (snd (stop_log w)) (lf_path (handles w ! h)) = Some (Text (lf_data (handles w ! h)))"
  using assms by (simp add: stop_log_def pbind_def emit_def close_log_def)

lemma stop_log_idle:
  "tee w = None \<Longrightarrow> stop_log w = (Inr (), w\<lparr>trace := trace w @ [Stop_log]\<rparr>)"
  by (simp add: stop_log_def pbind_def emit_def)

lemma start_log_failed:
  "fst (start_log output_dir w) \<noteq> Inr () \<Longrightarrow>
     tee (snd (start_log output_dir w)) = tee w
     \<and> sys_stdout (snd (start_log output_dir w)) = sys_stdout w"
  by (auto simp: start_log_def pbind_def emit_def open_log_def Let_def split: if_splits)

text \<open>
  C8: when \<^verbatim>\<open>start_log\<close> has returned and, after any prints, \<^verbatim>\<open>stop_log\<close> is called, it returns
  normally, \<^verbatim>\<open>sys.stdout\<close> is again the stream \<^verbatim>\<open>start_log\<close> captured, the log is closed, and any
  later prints go through that stream and leave the log, in its handle and on disk, as it was.
  When no tee is active, \<^verbatim>\<open>stop_log\<close> changes nothing and raises nothing; this is also so after a
  \<^verbatim>\<open>start_log\<close> that failed.
\<close>

theorem stop_log_restores_stdout:
  "(\<forall>w1 r w2. start_log output_dir w = (Inr (), w1) \<longrightarrow> stop_log (prints between w1) = (r, w2) \<longrightarrow>
      r = Inr () \<and> sys_stdout w2 = sys_stdout w \<and> tee w2 = None
      \<and> lf_closed (handles w2 ! length (handles w))
      \<and> lf_path (handles w2 ! length (handles w)) = output_dir @ str ''/log.txt''
      \<and> sys_stdout (prints later w2) = sys_stdout w
      \<and> handles (prints later w2) ! length (handles w) = handles w2 ! length (handles w)
      \<and> files (prints later w2) = files w2)
   \<and> (tee w = None \<longrightarrow> stop_log w = (Inr (), w\<lparr>trace := trace w @ [Stop_log]\<rparr>))
   \<and> (\<forall>w'. tee w = None \<longrightarrow> fst (start_log output_dir w) \<noteq> Inr () \<longrightarrow>
        w' = snd (start_log output_dir w) \<longrightarrow>
        stop_log w' = (Inr (), w'\<lparr>trace := trace w' @ [Stop_log]\<rparr>)
        \<and> sys_stdout w' = sys_stdout w)"
proof (intro conjI impI allI)
  fix w1 r w2
  assume a: "start_log output_dir w = (Inr (), w1)"
    and o: "stop_log (prints between w1) = (r, w2)"
  let ?h = "length (handles w)"
  let ?wb = "prints between w1"
  note s = start_log_ok[OF a]
  have b: "same_globals w1 ?wb" by (rule prints_frame)
  from s have h1: "handles w1 ! ?h =
      \<lparr>lf_path = output_dir @ str ''/log.txt'', lf_data = [], lf_closed = False\<rparr>"
    by simp
  have t: "tee ?wb = Some (?h, sys_stdout w)" "orig_stdout ?wb = sys_stdout w"
    "?h < length (handles ?wb)" "\<not> lf_closed (handles ?wb ! ?h)"
    "lf_path (handles ?wb ! ?h) = output_dir @ str ''/log.txt''"
    using b s h1 by (simp_all add: same_globals_def)
  note st = stop_log_open[OF t(1) t(3) t(4)]
  have c: "same_globals w2 (prints later w2)" by (rule prints_frame)
  from st o t show "r = Inr ()" "sys_stdout w2 = sys_stdout w" "tee w2 = None"
    "lf_closed (handles w2 ! ?h)" "lf_path (handles w2 ! ?h) = output_dir @ str ''/log.txt''"
    by simp_all
  then show "sys_stdout (prints later w2) = sys_stdout w"
    "handles (prints later w2) ! ?h = handles w2 ! ?h" "files (prints later w2) = files w2"
    using c by (simp_all add: same_globals_def)
next
  assume "tee w = None"
  then show "stop_log w = (Inr (), w\<lparr>trace := trace w @ [Stop_log]\<rparr>)" by (rule stop_log_idle)
next
  fix w'
  assume a: "tee w = None" "fst (start_log output_dir w) \<noteq> Inr ()"
    "w' = snd (start_log output_dir w)"
  then have f: "tee w' = None" "sys_stdout w' = sys_stdout w"
    using start_log_failed[of output_dir w] by simp_all
  then show "stop_log w' = (Inr (), w'\<lparr>trace := trace w' @ [Stop_log]\<rparr>)"
    by (simp add: stop_log_idle)
  from f show "sys_stdout w' = sys_stdout w" by simp
qed

theorem stop_log_restores_stdout_witness:
  "start_log (str ''out'') idle_world = (Inr (), snd (start_log (str ''out'') idle_world))
   \<and> sys_stdout (snd (stop_log (prints [str ''a''] (snd (start_log (str ''out'') idle_world)))))
      = sys_stdout idle_world
   \<and> tee idle_world = None
   \<and> stop_log idle_world = (Inr (), idle_world\<lparr>trace := trace idle_world @ [Stop_log]\<rparr>)
   \<and> fst (start_log (str ''out'') (idle_world\<lparr>unwritable := {str ''out/log.txt''}\<rparr>)) \<noteq> Inr ()
   \<and> sys_stdout (snd (start_log (str ''out'') (idle_world\<lparr>unwritable := {str ''out/log.txt''}\<rparr>)))
      = sys_stdout (idle_world\<lparr>unwritable := {str ''out/log.txt''}\<rparr>)"
proof -
  let ?b = "idle_world\<lparr>unwritable := {str ''out/log.txt''}\<rparr>"
  have h1: "start_log (str ''out'') idle_world = (Inr (), snd (start_log (str ''out'') idle_world))"
    by (simp add: start_log_def pbind_def emit_def open_log_def idle_world_def)
  have h2: "stop_log (prints [str ''a''] (snd (start_log (str ''out'') idle_world))) =
      (fst (stop_log (prints [str ''a''] (snd (start_log (str ''out'') idle_world)))),
       snd (stop_log (prints [str ''a''] (snd (start_log (str ''out'') idle_world)))))"
    by simp
  have h3: "tee idle_world = None" by (simp add: idle_world_def)
  have h4: "tee ?b = None" by (simp add: idle_world_def)
  have h5: "fst (start_log (str ''out'') ?b) \<noteq> Inr ()"
    by (simp add: start_log_def pbind_def emit_def open_log_def idle_world_def str_def)
  note t1 = stop_log_restores_stdout[of "str ''out''" idle_world "[str ''a'']" "[]",
      THEN conjunct1, rule_format, OF h1 h2]
  note t2 = stop_log_restores_stdout[of "str ''out''" idle_world "[]" "[]",
      THEN conjunct2, THEN conjunct1, rule_format, OF h3]
  note t3 = stop_log_restores_stdout[of "str ''out''" ?b "[]" "[]",
      THEN conjunct2, THEN conjunct2, rule_format, OF h4 h5 refl]
  from t1 have c1: "sys_stdout (snd (stop_log (prints [str ''a''] (snd (start_log (str ''out'') idle_world)))))
      = sys_stdout idle_world" by (elim conjE)
  from t3 have c3: "sys_stdout (snd (start_log (str ''out'') ?b)) = sys_stdout ?b" by (elim conjE)
  from h1 c1 h3 t2 h5 c3 show ?thesis by (intro conjI)
qed

section \<open>Properties of the controller's loop\<close>

lemma handle_interrupt_unfold:
  "handle_interrupt mba intr g w =
     (case replies w of
        [] \<Rightarrow>
          (Inl (Exn EOFError (str ''EOF when reading a line'')),
           w\<lparr>trace := trace w @ butlast (gate_events (Suc g) intr [])\<rparr>)
      | l # ls \<Rightarrow>
          (case invoke mba (Resume (resume_value l)) (agent w) of
             (Inl e, a) \<Rightarrow>
               (Inl e, w\<lparr>replies := ls, agent := a,
                    trace := trace w @ gate_events (Suc g) intr (resume_value l) @ [Raised e]\<rparr>)
           | (Inr r, a) \<Rightarrow>
               (Inr (Suc g, r), w\<lparr>replies := ls, agent := a,
                    trace := trace w @ gate_events (Suc g) intr (resume_value l)\<rparr>)))"
proof (cases "replies w")
  case Nil
  then show ?thesis
    by (simp add: handle_interrupt_def pbind_def emit_def py_input_def gate_events_def Let_def)
next
  case (Cons l ls)
  obtain r a where i: "invoke mba (Resume (resume_value l)) (agent w) = (r, a)"
    by (cases "invoke mba (Resume (resume_value l)) (agent w)")
  show ?thesis
  proof (cases r)
    case (Inl e)
    with Cons i show ?thesis
      by (simp add: handle_interrupt_def pbind_def emit_def py_input_def agent_invoke_def
          gate_events_def resume_value_def Let_def)
  next
    case (Inr x)
    with Cons i show ?thesis
      by (simp add: handle_interrupt_def pbind_def emit_def py_input_def agent_invoke_def ret_def
          gate_events_def resume_value_def Let_def)
  qed
qed

lemma handle_interrupt_reply:
  assumes "replies w = l # ls"
  shows "handle_interrupt mba intr g w =
     (case invoke mba (Resume (resume_value l)) (agent w) of
        (Inl e, a) \<Rightarrow>
          (Inl e, w\<lparr>replies := ls, agent := a,
                    trace := trace w @ gate_events (Suc g) intr (resume_value l) @ [Raised e]\<rparr>)
      | (Inr r, a) \<Rightarrow>
          (Inr (Suc g, r), w\<lparr>replies := ls, agent := a,
                    trace := trace w @ gate_events (Suc g) intr (resume_value l)\<rparr>))"
  using assms by (simp add: handle_interrupt_unfold)

lemma handle_interrupt_eof:
  assumes "replies w = []"
  shows "fst (handle_interrupt mba intr g w) = Inl (Exn EOFError (str ''EOF when reading a line''))"
  using assms by (simp add: handle_interrupt_unfold)

lemma gates_events_Nil [simp]: "gates_events g [] ls = []"
  by (cases ls) simp_all

lemma gates_events_append:
  "length xs \<le> length ls \<Longrightarrow>
     gates_events g (xs @ ys) ls =
       gates_events g xs ls @ gates_events (g + length xs) ys (drop (length xs) ls)"
proof (induction xs arbitrary: g ls)
  case Nil
  then show ?case by simp
next
  case (Cons x xs)
  then obtain l ls' where ls: "ls = l # ls'" by (cases ls) auto
  with Cons.prems have "length xs \<le> length ls'" by simp
  from Cons.IH[OF this, of "Suc g"] ls show ?case by simp
qed

lemma filter_resume_gates:
  "length xs \<le> length ls \<Longrightarrow>
     filter is_resume (gates_events g xs ls) =
       map (\<lambda>l. Invoke (Resume (resume_value l))) (take (length xs) ls)"
proof (induction xs arbitrary: g ls)
  case Nil
  then show ?case by simp
next
  case (Cons x xs)
  then obtain l ls' where ls: "ls = l # ls'" by (cases ls) auto
  with Cons.prems have "length xs \<le> length ls'" by simp
  from Cons.IH[OF this, of "Suc g"] ls show ?case
    by (simp add: gate_events_def is_resume_def)
qed

lemma no_get_state_in_gates: "Get_state \<notin> set (gates_events g xs ls)"
  by (induction g xs ls rule: gates_events.induct) (simp_all add: gate_events_def)

lemma resolve_interrupts_ok:
  "resolve_interrupts mba intrs (g, res) w = (Inr (g', res'), w') \<Longrightarrow>
     length intrs \<le> length (replies w) \<and> g' = g + length intrs
     \<and> replies w' = drop (length intrs) (replies w)
     \<and> trace w' = trace w @ gates_events g intrs (replies w)"
proof (induction intrs arbitrary: g res w)
  case Nil
  then show ?case by simp
next
  case (Cons intr intrs)
  show ?case
  proof (cases "replies w")
    case Nil
    with Cons.prems handle_interrupt_eof[of w mba intr g] show ?thesis
      by (auto split: prod.splits sum.splits)
  next
    case (Cons l ls)
    note h = handle_interrupt_reply[OF Cons, of mba intr g]
    obtain r a where i: "invoke mba (Resume (resume_value l)) (agent w) = (r, a)"
      by (cases "invoke mba (Resume (resume_value l)) (agent w)")
    show ?thesis
    proof (cases r)
      case (Inl e)
      with h i Cons.prems show ?thesis by simp
    next
      case (Inr r')
      let ?w1 = "w\<lparr>replies := ls, agent := a,
                    trace := trace w @ gate_events (Suc g) intr (resume_value l)\<rparr>"
      from Inr h i Cons.prems
      have "resolve_interrupts mba intrs (Suc g, r') ?w1 = (Inr (g', res'), w')" by simp
      from Cons.IH[OF this] Cons show ?thesis by simp
    qed
  qed
qed

lemma scan_tasks_ok:
  "scan_tasks mba ts (g, res) w = (Inr (g', res'), w') \<Longrightarrow>
     length (interrupts_of ts) \<le> length (replies w) \<and> g' = g + length (interrupts_of ts)
     \<and> replies w' = drop (length (interrupts_of ts)) (replies w)
     \<and> trace w' = trace w @ gates_events g (interrupts_of ts) (replies w)"
proof (induction ts arbitrary: g res w)
  case Nil
  then show ?case by simp
next
  case (Cons t ts)
  show ?case
  proof (cases "interrupts t")
    case None
    with Cons.prems have "scan_tasks mba ts (g, res) w = (Inr (g', res'), w')" by simp
    from Cons.IH[OF this] None show ?thesis by simp
  next
    case (Some intrs)
    obtain r1 w1 where r: "resolve_interrupts mba intrs (g, res) w = (r1, w1)"
      by (cases "resolve_interrupts mba intrs (g, res) w")
    show ?thesis
    proof (cases r1)
      case (Inl e)
      with Some r Cons.prems show ?thesis by simp
    next
      case (Inr st1)
      obtain g1 res1 where st1: "st1 = (g1, res1)" by (cases st1)
      from Inr st1 r have r': "resolve_interrupts mba intrs (g, res) w = (Inr (g1, res1), w1)"
        by simp
      note a = resolve_interrupts_ok[OF r']
      from Some r' Cons.prems have "scan_tasks mba ts (g1, res1) w1 = (Inr (g', res'), w')"
        by simp
      note b = Cons.IH[OF this]
      from a b Some show ?thesis
        by (auto simp: gates_events_append ac_simps)
    qed
  qed
qed

text \<open>
  C2: in an iteration of the loop in which the snapshot has pending transitions and the scan of
  its tasks runs to its end, the events after the state query are exactly those of the gates, one
  gate per interrupt request in the order of the task collection, each with its prompt followed
  at once by its own resume invocation; so there are exactly as many resume invocations as
  interrupt requests, none of them batched, and the state is queried again only afterwards, by
  the next iteration.
\<close>

theorem one_resume_per_interrupt:
  assumes "agent_get_state mba w = (Inr snap, w1)"
    and "snapshot_next snap \<noteq> []"
    and "scan_tasks mba (tasks snap) (g, res) w1 = (Inr (g', res'), w2)"
  shows "trace w2 = trace w @ [Get_state] @ gates_events g (interrupts_of (tasks snap)) (replies w1)
    \<and> filter is_resume (gates_events g (interrupts_of (tasks snap)) (replies w1)) =
        map (\<lambda>l. Invoke (Resume (resume_value l)))
          (take (length (interrupts_of (tasks snap))) (replies w1))
    \<and> length (filter is_resume (gates_events g (interrupts_of (tasks snap)) (replies w1))) =
        length (interrupts_of (tasks snap))
    \<and> Get_state \<notin> set (gates_events g (interrupts_of (tasks snap)) (replies w1))
    \<and> g' = g + length (interrupts_of (tasks snap))
    \<and> replies w2 = drop (length (interrupts_of (tasks snap))) (replies w1)
    \<and> controller_loop mba (Suc fuel) (g, res) w = controller_loop mba fuel (g', res') w2"
proof -
  note s = scan_tasks_ok[OF assms(3)]
  from assms(1) have t: "trace w1 = trace w @ [Get_state]"
    by (auto simp: agent_get_state_def pbind_def emit_def split: prod.splits sum.splits)
  from s have f: "filter is_resume (gates_events g (interrupts_of (tasks snap)) (replies w1)) =
        map (\<lambda>l. Invoke (Resume (resume_value l)))
          (take (length (interrupts_of (tasks snap))) (replies w1))"
    by (simp add: filter_resume_gates)
  from s have "length (map (\<lambda>l. Invoke (Resume (resume_value l)))
          (take (length (interrupts_of (tasks snap))) (replies w1))) =
        length (interrupts_of (tasks snap))"
    by simp
  with f have n: "length (filter is_resume (gates_events g (interrupts_of (tasks snap)) (replies w1))) =
        length (interrupts_of (tasks snap))"
    by simp
  from assms have c: "controller_loop mba (Suc fuel) (g, res) w = controller_loop mba fuel (g', res') w2"
    by simp
  from s t f n c no_get_state_in_gates show ?thesis by simp
qed

theorem one_resume_per_interrupt_witness:
  "agent_get_state demo_mba (idle_world\<lparr>agent := 1\<rparr>) =
      (Inr (demo_snapshot 1), idle_world\<lparr>agent := 1, trace := [Get_state]\<rparr>)
   \<and> snapshot_next (demo_snapshot 1) \<noteq> []
   \<and> scan_tasks demo_mba (tasks (demo_snapshot 1)) (0, demo_result)
        (idle_world\<lparr>agent := 1, trace := [Get_state]\<rparr>) =
      (Inr (2, demo_result),
       snd (scan_tasks demo_mba (tasks (demo_snapshot 1)) (0, demo_result)
        (idle_world\<lparr>agent := 1, trace := [Get_state]\<rparr>)))
   \<and> length (filter is_resume (gates_events 0 (interrupts_of (tasks (demo_snapshot 1)))
        (replies (idle_world\<lparr>agent := 1, trace := [Get_state]\<rparr>)))) =
      length (interrupts_of (tasks (demo_snapshot 1)))"
proof -
  let ?w = "idle_world\<lparr>agent := 1\<rparr>"
  let ?w1 = "idle_world\<lparr>agent := 1, trace := [Get_state]\<rparr>"
  have h1: "agent_get_state demo_mba ?w = (Inr (demo_snapshot 1), ?w1)"
    by (simp add: agent_get_state_def pbind_def emit_def demo_mba_def idle_world_def)
  have h2: "snapshot_next (demo_snapshot 1) \<noteq> []"
    by (simp add: demo_snapshot_def)
  have r: "replies ?w1 = [str '' ok '', []]" by (simp add: idle_world_def)
  have h3: "scan_tasks demo_mba (tasks (demo_snapshot 1)) (0, demo_result) ?w1 =
      (Inr (2, demo_result),
       snd (scan_tasks demo_mba (tasks (demo_snapshot 1)) (0, demo_result) ?w1))"
    by (simp add: demo_snapshot_def handle_interrupt_unfold demo_mba_def idle_world_def)
  note c = one_resume_per_interrupt[OF h1 h2 h3, of 0, THEN conjunct2, THEN conjunct2, THEN conjunct1]
  from h1 h2 h3 c show ?thesis by (intro conjI)
qed

text \<open>
  C1, as the code has it: the reply line is trimmed of white space first; when nothing is left the
  resume invocation gets the literal \<^verbatim>\<open>approved\<close>, otherwise it gets the trimmed line. So a reply
  that has no white space at its ends and is not empty is passed on unchanged.
\<close>

theorem resume_value_of_reply:
  assumes "replies w = l # ls"
  shows "(\<exists>rest. trace (snd (handle_interrupt mba intr g w)) =
            trace w @ gate_events (Suc g) intr (if strip l = [] then str ''approved'' else strip l)
              @ rest
          \<and> filter is_resume rest = [])
     \<and> (strip l = [] \<longrightarrow> resume_value l = str ''approved'')
     \<and> (strip l \<noteq> [] \<longrightarrow> resume_value l = strip l)
     \<and> (l \<noteq> [] \<longrightarrow> \<not> isspace (hd l) \<longrightarrow> \<not> isspace (last l) \<longrightarrow> resume_value l = l)"
proof -
  obtain r a where i: "invoke mba (Resume (resume_value l)) (agent w) = (r, a)"
    by (cases "invoke mba (Resume (resume_value l)) (agent w)")
  have 1: "\<exists>rest. trace (snd (handle_interrupt mba intr g w)) =
            trace w @ gate_events (Suc g) intr (if strip l = [] then str ''approved'' else strip l)
              @ rest
          \<and> filter is_resume rest = []"
  proof (cases r)
    case (Inl e)
    with i handle_interrupt_reply[OF assms, of mba intr g]
    have "trace (snd (handle_interrupt mba intr g w)) =
        trace w @ gate_events (Suc g) intr (resume_value l) @ [Raised e]"
      by simp
    then show ?thesis by (simp add: resume_value_def is_resume_def)
  next
    case (Inr x)
    with i handle_interrupt_reply[OF assms, of mba intr g]
    have "trace (snd (handle_interrupt mba intr g w)) =
        trace w @ gate_events (Suc g) intr (resume_value l) @ []"
      by simp
    then show ?thesis unfolding resume_value_def by (metis filter.simps(1))
  qed
  have 2: "l \<noteq> [] \<longrightarrow> \<not> isspace (hd l) \<longrightarrow> \<not> isspace (last l) \<longrightarrow> resume_value l = l"
  proof (intro impI)
    assume n: "l \<noteq> []" and a: "\<not> isspace (hd l)" and b: "\<not> isspace (last l)"
    from n a have "dropWhile isspace l = l" by (cases l) simp_all
    moreover from n b have "dropWhile isspace (rev l) = rev l"
      by (cases "rev l") (simp_all add: last_rev[symmetric] hd_rev)
    ultimately have "strip l = l" by (simp add: strip_def)
    with n show "resume_value l = l" by (simp add: resume_value_def)
  qed
  from 1 2 show ?thesis by (simp add: resume_value_def)
qed

theorem resume_value_of_reply_witness:
  "replies idle_world = str '' ok '' # [[]]
   \<and> strip (str '' ok '') \<noteq> []
   \<and> resume_value (str '' ok '') = strip (str '' ok '')"
proof -
  have h: "replies idle_world = str '' ok '' # [[]]" by (simp add: idle_world_def)
  have s: "strip (str '' ok '') \<noteq> []" by (simp add: strip_def isspace_def str_def)
  note c = resume_value_of_reply[OF h, of demo_mba "Interrupt []" 0,
      THEN conjunct2, THEN conjunct2, THEN conjunct1, THEN mp, OF s]
  from h s c show ?thesis by (intro conjI)
qed

text \<open>
  C1, as the claim states it, fails: the reply \<^verbatim>\<open> ok \<close> is not empty after trimming, and the
  resume invocation gets \<^verbatim>\<open>ok\<close>, not the reply unchanged.
\<close>

theorem reply_not_passed_unchanged:
  "hd (replies idle_world) = str '' ok ''
   \<and> strip (hd (replies idle_world)) \<noteq> []
   \<and> last (trace (snd (handle_interrupt demo_mba (Interrupt (str ''Scope?'')) 0 idle_world))) =
       Invoke (Resume (str ''ok''))
   \<and> Invoke (Resume (str ''ok'')) \<noteq> Invoke (Resume (hd (replies idle_world)))"
proof -
  have r: "replies idle_world = [str '' ok '', []]" by (simp add: idle_world_def)
  have s: "strip (str '' ok '') = str ''ok''" by (simp add: strip_def isspace_def str_def)
  show ?thesis
    by (simp add: r s handle_interrupt_reply[OF r] resume_value_def demo_mba_def gate_events_def)
      (simp add: str_def)
qed

lemma scan_tasks_filter:
  "scan_tasks mba (filter (\<lambda>t. interrupts t \<noteq> None) ts) st w = scan_tasks mba ts st w"
proof (induction ts arbitrary: st w)
  case Nil
  show ?case by simp
next
  case (Cons t ts)
  then show ?case by (cases "interrupts t") (simp_all split: prod.splits sum.splits)
qed

text \<open>
  C10: a task without an interrupts attribute is skipped: the scan of a task collection gives
  the same outcome and the same world, so the same prompts, banners and resume invocations, as
  the scan of the collection without such tasks; a collection of such tasks alone does nothing
  and does not fail.
\<close>

theorem tasks_without_interrupts_skipped:
  "scan_tasks mba (Task None # ts) st w = scan_tasks mba ts st w
   \<and> scan_tasks mba ts st w = scan_tasks mba (filter (\<lambda>t. interrupts t \<noteq> None) ts) st w
   \<and> scan_tasks mba (replicate n (Task None)) st w = (Inr st, w)"
proof -
  have "scan_tasks mba (replicate n (Task None)) st w = (Inr st, w)"
    by (induction n) simp_all
  with scan_tasks_filter[of mba ts st w] show ?thesis by (simp del: not_None_eq)
qed

section \<open>Properties of the composer\<close>

lemma stream_ok_same: "same_globals w w' \<Longrightarrow> stream_ok (handles w') d = stream_ok (handles w) d"
  by (induction d) (simp_all add: same_globals_def)

lemma file_write_ok:
  "h < length (handles w) \<Longrightarrow> \<not> lf_closed (handles w ! h) \<Longrightarrow> fst (file_write h s w) = Inr ()"
  by (simp add: file_write_def)

lemma write_stream_ok: "stream_ok (handles w) d \<Longrightarrow> fst (write_stream d s w) = Inr ()"
proof (induction d arbitrary: w)
  case NoStream
  then show ?case by simp
next
  case (Dest n)
  show ?case by simp
next
  case (TeeWriter h d)
  obtain r1 w1 where e: "write_stream d s w = (r1, w1)" by (cases "write_stream d s w")
  from TeeWriter.prems have "stream_ok (handles w) d" by simp
  from TeeWriter.IH[OF this] e have r1: "r1 = Inr ()" by simp
  from write_stream_frame[OF e] have g: "same_globals w w1" by simp
  with TeeWriter.prems have "h < length (handles w1)" "\<not> lf_closed (handles w1 ! h)"
    by (simp_all add: same_globals_def)
  then have "fst (file_write h s w1) = Inr ()" by (rule file_write_ok)
  with e r1 show ?case by simp
qed

lemma stdout_ok_same: "same_globals w w' \<Longrightarrow> stdout_ok w' = stdout_ok w"
  using stream_ok_same[of w w'] by (simp add: stdout_ok_def same_globals_def)

lemma py_print_ok:
  assumes "stdout_ok w"
  shows "py_print s w = (Inr (), after_print s w)"
proof -
  let ?w = "w\<lparr>trace := trace w @ [Print s]\<rparr>"
  have "fst (py_print s w) = Inr ()"
  proof (cases "sys_stdout w = NoStream")
    case True
    then show ?thesis by (simp add: py_print_def pbind_def emit_def)
  next
    case False
    with assms have "stream_ok (handles ?w) (sys_stdout w)" by (simp add: stdout_ok_def)
    then have "fst (write_stream (sys_stdout w) (s @ [10]) ?w) = Inr ()" by (rule write_stream_ok)
    with False show ?thesis by (simp add: py_print_def pbind_def emit_def)
  qed
  then show ?thesis by (simp add: after_print_def prod_eq_iff)
qed

lemma after_print_simps [simp]:
  "files (after_print s w) = files w"
  "unwritable (after_print s w) = unwritable w"
  "dirs (after_print s w) = dirs w"
  "docx (after_print s w) = docx w"
  "ticks (after_print s w) = ticks w"
  "clock (after_print s w) = clock w"
  "cwd (after_print s w) = cwd w"
  "tee (after_print s w) = tee w"
  "replies (after_print s w) = replies w"
  "agent (after_print s w) = agent w"
  "trace (after_print s w) = trace w @ [Print s]"
  "stdout_ok (after_print s w) = stdout_ok w"
  using py_print_frame[of w s] stdout_ok_same[of w "after_print s w"]
  by (simp_all add: after_print_def same_globals_def)

lemma stdout_ok_updates [simp]:
  "stdout_ok (w\<lparr>files := f\<rparr>) = stdout_ok w"
  "stdout_ok (w\<lparr>ticks := n\<rparr>) = stdout_ok w"
  "stdout_ok (w\<lparr>trace := t\<rparr>) = stdout_ok w"
  "stdout_ok (w\<lparr>dirs := ds\<rparr>) = stdout_ok w"
  "stdout_ok (w\<lparr>agent := a\<rparr>) = stdout_ok w"
  "stdout_ok (w\<lparr>replies := rs\<rparr>) = stdout_ok w"
  by (simp_all add: stdout_ok_def)

lemma is_ImportError_Exception: "is_ImportError e \<Longrightarrow> is_Exception e"
  by (simp add: is_ImportError_def is_Exception_def)

text \<open>What the \<^verbatim>\<open>try\<close> statement of \<^verbatim>\<open>save_all\<close> does, by the backend's first fault.\<close>

lemma docx_handlers_outcome:
  assumes "stdout_ok w" and "docx_handlers (docx_body result config a p) w = (r, w')"
  shows "stdout_ok w' \<and> unwritable w' = unwritable w \<and> tee w' = tee w
    \<and> (\<forall>q. q \<noteq> p \<longrightarrow> files w' q = files w q)
    \<and> (case first_fault (docx w) of
         None \<Rightarrow> r = Inr () \<and> trace w' = trace w @ [Print (str ''DOCX:     '' @ p)]
           \<and> files w' p = Some (Docx (compose_docx result config a (clock w (ticks w))))
       | Some e \<Rightarrow> files w' = files w
           \<and> (if is_Exception e then r = Inr () \<and> trace w' = trace w @ [Print (handler_notice e)]
              else r = Inl e \<and> trace w' = trace w))"
proof (cases "import_fault (docx w)")
  case (Some e)
  with assms show ?thesis
    by (auto simp: docx_handlers_def docx_body_def pbind_def fault_def raise_def first_fault_def
        handler_notice_def py_print_ok is_ImportError_Exception)
next
  case None
  note i = None
  show ?thesis
  proof (cases "compose_fault (docx w)")
    case (Some e)
    with i assms show ?thesis
      by (auto simp: docx_handlers_def docx_body_def pbind_def fault_def raise_def ret_def now_def
          first_fault_def handler_notice_def py_print_ok is_ImportError_Exception)
  next
    case None
    note c = None
    show ?thesis
    proof (cases "save_fault (docx w)")
      case (Some e)
      with i c assms show ?thesis
        by (auto simp: docx_handlers_def docx_body_def pbind_def fault_def raise_def ret_def
            now_def first_fault_def handler_notice_def py_print_ok is_ImportError_Exception)
    next
      case None
      with i c assms show ?thesis
        by (auto simp: docx_handlers_def docx_body_def pbind_def fault_def raise_def ret_def
            now_def first_fault_def put_file_def py_print_ok)
    qed
  qed
qed

lemma report_paths_differ:
  "md_path_of d \<noteq> meta_path_of d" "docx_path_of d \<noteq> meta_path_of d"
  "md_path_of d \<noteq> docx_path_of d"
  by (simp_all add: md_path_of_def meta_path_of_def docx_path_of_def str_def)

text \<open>
  What \<^verbatim>\<open>save_all\<close> leaves when the console can be written and the two reports can be opened.
\<close>

lemma save_all_outcome:
  assumes ok: "stdout_ok w"
    and md: "md_path_of d \<notin> unwritable w" and meta: "meta_path_of d \<notin> unwritable w"
    and out: "save_all result config d elapsed w = (r, w')"
  shows "files w' (md_path_of d) =
       Some (Text (md_text result (agents_str_of config) (clock w (ticks w))))
    \<and> files w' (meta_path_of d) =
       Some (yaml_dump (meta_record config (clock w (Suc (ticks w))) elapsed))
    \<and> tee w' = tee w
    \<and> (case first_fault (docx w) of
         None \<Rightarrow> r = Inr ()
           \<and> files w' (docx_path_of d) =
               Some (Docx (compose_docx result config (agents_str_of config)
                       (clock w (Suc (Suc (ticks w))))))
       | Some e \<Rightarrow> files w' (docx_path_of d) = files w (docx_path_of d)
           \<and> (if is_Exception e then r = Inr () \<and> Print (handler_notice e) \<in> set (trace w')
              else r = Inl e))"
proof -
  let ?a = "agents_str_of config"
  let ?w3 = "w\<lparr>ticks := Suc (ticks w),
               files := (files w)(md_path_of d \<mapsto> Text (md_text result ?a (clock w (ticks w))))\<rparr>"
  let ?w4 = "after_print (str ''Markdown: '' @ md_path_of d) ?w3"
  let ?w7 = "?w4\<lparr>ticks := Suc (Suc (ticks w)),
               files := (files ?w4)(meta_path_of d \<mapsto>
                 yaml_dump (meta_record config (clock w (Suc (ticks w))) elapsed))\<rparr>"
  let ?w8 = "after_print (str ''Meta:     '' @ meta_path_of d) ?w7"
  obtain r9 w9 where h: "docx_handlers (docx_body result config ?a (docx_path_of d)) ?w8 = (r9, w9)"
    by (cases "docx_handlers (docx_body result config ?a (docx_path_of d)) ?w8")
  have ok8: "stdout_ok ?w8" using ok by simp
  note o = docx_handlers_outcome[OF ok8 h]
  have s0: "save_all result config d elapsed w =
      pbind (docx_handlers (docx_body result config ?a (docx_path_of d))) (\<lambda>u.
        pbind (py_print (str ''Log:      '' @ d @ str ''/log.txt'')) (\<lambda>u.
          py_print ([10] @ str ''All outputs saved to: '' @ d))) ?w8"
    using ok md meta
    by (simp add: save_all_def Let_def pbind_def open_w_def now_def put_file_def py_print_ok
        md_path_of_def meta_path_of_def docx_path_of_def agents_str_of_def)
  from o have ok9: "stdout_ok w9" by simp
  have s: "save_all result config d elapsed w =
      (case r9 of Inl e \<Rightarrow> (Inl e, w9)
       | Inr u \<Rightarrow> (Inr (), after_print ([10] @ str ''All outputs saved to: '' @ d)
            (after_print (str ''Log:      '' @ d @ str ''/log.txt'') w9)))"
    unfolding s0 using h ok9
    by (simp add: pbind_def py_print_ok split: sum.splits)
  have f8: "files ?w8 (md_path_of d) = Some (Text (md_text result ?a (clock w (ticks w))))"
    "files ?w8 (meta_path_of d) =
       Some (yaml_dump (meta_record config (clock w (Suc (ticks w))) elapsed))"
    "files ?w8 (docx_path_of d) = files w (docx_path_of d)"
    "docx ?w8 = docx w" "clock ?w8 = clock w" "ticks ?w8 = Suc (Suc (ticks w))"
    "tee ?w8 = tee w"
    using report_paths_differ[of d] by (simp_all add: fun_upd_def)
  from o report_paths_differ[of d]
  have f9: "files w9 (md_path_of d) = files ?w8 (md_path_of d)"
    "files w9 (meta_path_of d) = files ?w8 (meta_path_of d)" "tee w9 = tee w"
    by (simp_all del: after_print_simps add: f8)
  show ?thesis
  proof (cases r9)
    case (Inl e)
    with s out have "r = Inl e" "w' = w9" by simp_all
    with o Inl f8 f9 show ?thesis
      by (auto split: option.splits if_splits)
  next
    case (Inr u)
    with s out have "r = Inr ()"
      "w' = after_print ([10] @ str ''All outputs saved to: '' @ d)
            (after_print (str ''Log:      '' @ d @ str ''/log.txt'') w9)"
      by simp_all
    with o Inr f8 f9 show ?thesis
      by (auto split: option.splits if_splits)
  qed
qed

lemma round_half_even_near: "\<bar>of_int (round_half_even y) - y\<bar> \<le> 1 / 2"
proof -
  have "of_int \<lfloor>y\<rfloor> \<le> y" "y < of_int \<lfloor>y\<rfloor> + 1" by linarith+
  then show ?thesis by (auto simp: round_half_even_def Let_def)
qed

lemma py_round1_near: "\<bar>py_round1 x - x\<bar> \<le> 1 / 20"
proof -
  have "\<bar>of_int (round_half_even (x * 10)) - x * 10\<bar> \<le> 1 / 2" by (rule round_half_even_near)
  then show ?thesis unfolding py_round1_def by linarith
qed

lemma py_round1_examples:
  "py_round1 (617 / 50) = 123 / 10"
  "py_round1 (3473401212609495 / 281474976710656) = 123 / 10"
  "py_round1 (1 / 4) = 1 / 5" "py_round1 (3 / 4) = 4 / 5"
proof -
  have f: "\<lfloor>617 / 5 :: rat\<rfloor> = 123" "\<lfloor>17367006063047475 / 140737488355328 :: rat\<rfloor> = 123"
    "\<lfloor>5 / 2 :: rat\<rfloor> = 2" "\<lfloor>15 / 2 :: rat\<rfloor> = 7"
    by (rule floor_unique; simp)+
  show "py_round1 (617 / 50) = 123 / 10"
    "py_round1 (3473401212609495 / 281474976710656) = 123 / 10"
    "py_round1 (1 / 4) = 1 / 5" "py_round1 (3 / 4) = 4 / 5"
    by (simp_all add: py_round1_def round_half_even_def Let_def f)
qed

text \<open>
  C4: when \<^verbatim>\<open>save_all\<close> can write its reports, the metadata file holds a mapping with exactly the
  keys \<^verbatim>\<open>timestamp\<close>, \<^verbatim>\<open>input_query\<close>, \<^verbatim>\<open>auto_approve\<close>, \<^verbatim>\<open>models\<close> and \<^verbatim>\<open>elapsed_seconds\<close>, in this
  order; \<^verbatim>\<open>auto_approve\<close> is false, \<^verbatim>\<open>models\<close> maps each role to its model in the order of the
  configuration, and \<^verbatim>\<open>elapsed_seconds\<close> is the elapsed time rounded to one decimal place: a
  number of tenths at most a twentieth away from it. The elapsed time 12.34, as the decimal
  number and as the float nearest to it, gives 12.3.
\<close>

theorem metadata_record_written:
  assumes "stdout_ok w"
    and "md_path_of d \<notin> unwritable w" and "meta_path_of d \<notin> unwritable w"
  shows "files (snd (save_all result config d elapsed w)) (d @ str ''/meta.yaml'') =
       Some (Yaml (YMap
         [(str ''timestamp'', YStr (isoformat (clock w (Suc (ticks w))))),
          (str ''input_query'', YStr (input_query config)),
          (str ''auto_approve'', YBool False),
          (str ''models'', YMap (map (\<lambda>(k, v). (k, YStr (model v))) (agents config))),
          (str ''elapsed_seconds'', YFloat (py_round1 elapsed))]))
    \<and> (\<exists>n. py_round1 elapsed = of_int n / 10)
    \<and> \<bar>py_round1 elapsed - elapsed\<bar> \<le> 1 / 20
    \<and> py_round1 (617 / 50) = 123 / 10
    \<and> py_round1 (3473401212609495 / 281474976710656) = 123 / 10"
proof -
  obtain r w' where o: "save_all result config d elapsed w = (r, w')"
    by (cases "save_all result config d elapsed w")
  from save_all_outcome[OF assms o] o
  have "files (snd (save_all result config d elapsed w)) (meta_path_of d) =
      Some (yaml_dump (meta_record config (clock w (Suc (ticks w))) elapsed))"
    by simp
  then have 1: "files (snd (save_all result config d elapsed w)) (d @ str ''/meta.yaml'') =
       Some (Yaml (YMap
         [(str ''timestamp'', YStr (isoformat (clock w (Suc (ticks w))))),
          (str ''input_query'', YStr (input_query config)),
          (str ''auto_approve'', YBool False),
          (str ''models'', YMap (map (\<lambda>(k, v). (k, YStr (model v))) (agents config))),
          (str ''elapsed_seconds'', YFloat (py_round1 elapsed))]))"
    by (simp add: meta_path_of_def yaml_dump_def meta_record_def)
  have 2: "\<exists>n. py_round1 elapsed = of_int n / 10"
    unfolding py_round1_def by (rule exI) (rule refl)
  from 1 2 py_round1_near[of elapsed] py_round1_examples(1,2) show ?thesis
    by (intro conjI)
qed

theorem metadata_record_written_witness:
  "stdout_ok idle_world
   \<and> md_path_of (str ''out'') \<notin> unwritable idle_world
   \<and> meta_path_of (str ''out'') \<notin> unwritable idle_world
   \<and> files (snd (save_all demo_result demo_config (str ''out'') (617 / 50) idle_world))
        (str ''out'' @ str ''/meta.yaml'') =
       Some (Yaml (YMap
         [(str ''timestamp'', YStr (isoformat (clock idle_world (Suc (ticks idle_world))))),
          (str ''input_query'', YStr (input_query demo_config)),
          (str ''auto_approve'', YBool False),
          (str ''models'', YMap (map (\<lambda>(k, v). (k, YStr (model v))) (agents demo_config))),
          (str ''elapsed_seconds'', YFloat (py_round1 (617 / 50)))]))"
proof -
  have h1: "stdout_ok idle_world" by (simp add: stdout_ok_def idle_world_def)
  have h2: "md_path_of (str ''out'') \<notin> unwritable idle_world" by (simp add: idle_world_def)
  have h3: "meta_path_of (str ''out'') \<notin> unwritable idle_world" by (simp add: idle_world_def)
  note c = metadata_record_written[OF h1 h2 h3, of demo_result demo_config "617 / 50",
      THEN conjunct1]
  from h1 h2 h3 c show ?thesis by (intro conjI)
qed

text \<open>The world in which the \<^verbatim>\<open>try\<close> statement of \<^verbatim>\<open>save_all\<close> starts, and what follows it.\<close>

lemma save_all_split:
  assumes ok: "stdout_ok w"
    and md: "md_path_of d \<notin> unwritable w" and meta: "meta_path_of d \<notin> unwritable w"
  shows "save_all result config d elapsed w =
      pbind (docx_handlers (docx_body result config (agents_str_of config) (docx_path_of d))) (\<lambda>u.
        pbind (py_print (str ''Log:      '' @ d @ str ''/log.txt'')) (\<lambda>u.
          py_print ([10] @ str ''All outputs saved to: '' @ d)))
        (reports_written result config d elapsed w)"
  using ok md meta
  by (simp add: save_all_def Let_def pbind_def open_w_def now_def put_file_def py_print_ok
      md_path_of_def meta_path_of_def docx_path_of_def agents_str_of_def reports_written_def)

lemma files_reports_written:
  "files (reports_written result config d elapsed w) (md_path_of d) =
     Some (Text (md_text result (agents_str_of config) (clock w (ticks w))))"
  "files (reports_written result config d elapsed w) (meta_path_of d) =
     Some (yaml_dump (meta_record config (clock w (Suc (ticks w))) elapsed))"
  using report_paths_differ[of d]
  by (simp_all add: reports_written_def Let_def)

text \<open>
  C5, as the code has it: when the console can be written and the two reports can be opened, the
  \<^verbatim>\<open>try\<close> statement starts in a world in which the Markdown and the metadata files are written.
  An exception raised there by python-docx that derives from \<^verbatim>\<open>Exception\<close> does not leave
  \<^verbatim>\<open>save_all\<close>: it returns normally, having printed the skip notice for an \<^verbatim>\<open>ImportError\<close> and the
  warning with the exception's message for any other; the two files are as written and no
  document file is written.
\<close>

theorem docx_failure_caught:
  assumes "stdout_ok w"
    and "md_path_of d \<notin> unwritable w" and "meta_path_of d \<notin> unwritable w"
    and "first_fault (docx w) = Some e" and "is_Exception e"
  shows "save_all result config d elapsed w =
      pbind (docx_handlers (docx_body result config (agents_str_of config) (docx_path_of d))) (\<lambda>u.
        pbind (py_print (str ''Log:      '' @ d @ str ''/log.txt'')) (\<lambda>u.
          py_print ([10] @ str ''All outputs saved to: '' @ d)))
        (reports_written result config d elapsed w)
    \<and> files (reports_written result config d elapsed w) (md_path_of d) =
        Some (Text (md_text result (agents_str_of config) (clock w (ticks w))))
    \<and> files (reports_written result config d elapsed w) (meta_path_of d) =
        Some (yaml_dump (meta_record config (clock w (Suc (ticks w))) elapsed))
    \<and> fst (save_all result config d elapsed w) = Inr ()
    \<and> Print (if is_ImportError e then str ''[SKIP] python-docx not installed''
              else str ''[WARNING] DOCX generation failed: '' @ exn_msg e)
        \<in> set (trace (snd (save_all result config d elapsed w)))
    \<and> files (snd (save_all result config d elapsed w)) (md_path_of d) =
        Some (Text (md_text result (agents_str_of config) (clock w (ticks w))))
    \<and> files (snd (save_all result config d elapsed w)) (meta_path_of d) =
        Some (yaml_dump (meta_record config (clock w (Suc (ticks w))) elapsed))
    \<and> files (snd (save_all result config d elapsed w)) (docx_path_of d) = files w (docx_path_of d)"
proof -
  obtain r w' where o: "save_all result config d elapsed w = (r, w')"
    by (cases "save_all result config d elapsed w")
  note a = save_all_outcome[OF assms(1-3) o]
  note s = save_all_split[OF assms(1-3), of result config elapsed]
  from a o assms(4,5) have "fst (save_all result config d elapsed w) = Inr ()
    \<and> Print (handler_notice e) \<in> set (trace (snd (save_all result config d elapsed w)))
    \<and> files (snd (save_all result config d elapsed w)) (md_path_of d) =
        Some (Text (md_text result (agents_str_of config) (clock w (ticks w))))
    \<and> files (snd (save_all result config d elapsed w)) (meta_path_of d) =
        Some (yaml_dump (meta_record config (clock w (Suc (ticks w))) elapsed))
    \<and> files (snd (save_all result config d elapsed w)) (docx_path_of d) = files w (docx_path_of d)"
    by simp
  with s files_reports_written[of result config d elapsed w] show ?thesis
    by (simp add: handler_notice_def)
qed

theorem docx_failure_caught_witness:
  "stdout_ok (idle_world\<lparr>docx := \<lparr>import_fault = None, compose_fault = None,
        save_fault = Some (Exn OSError (str ''disk full''))\<rparr>\<rparr>)
   \<and> md_path_of (str ''out'') \<notin> unwritable (idle_world\<lparr>docx := \<lparr>import_fault = None,
        compose_fault = None, save_fault = Some (Exn OSError (str ''disk full''))\<rparr>\<rparr>)
   \<and> meta_path_of (str ''out'') \<notin> unwritable (idle_world\<lparr>docx := \<lparr>import_fault = None,
        compose_fault = None, save_fault = Some (Exn OSError (str ''disk full''))\<rparr>\<rparr>)
   \<and> first_fault (docx (idle_world\<lparr>docx := \<lparr>import_fault = None, compose_fault = None,
        save_fault = Some (Exn OSError (str ''disk full''))\<rparr>\<rparr>)) =
       Some (Exn OSError (str ''disk full''))
   \<and> is_Exception (Exn OSError (str ''disk full''))
   \<and> fst (save_all demo_result demo_config (str ''out'') 1
        (idle_world\<lparr>docx := \<lparr>import_fault = None, compose_fault = None,
        save_fault = Some (Exn OSError (str ''disk full''))\<rparr>\<rparr>)) = Inr ()"
proof -
  let ?w = "idle_world\<lparr>docx := \<lparr>import_fault = None, compose_fault = None,
        save_fault = Some (Exn OSError (str ''disk full''))\<rparr>\<rparr>"
  have h1: "stdout_ok ?w" by (simp add: stdout_ok_def idle_world_def)
  have h2: "md_path_of (str ''out'') \<notin> unwritable ?w" by (simp add: idle_world_def)
  have h3: "meta_path_of (str ''out'') \<notin> unwritable ?w" by (simp add: idle_world_def)
  have h4: "first_fault (docx ?w) = Some (Exn OSError (str ''disk full''))"
    by (simp add: first_fault_def)
  have h5: "is_Exception (Exn OSError (str ''disk full''))" by (simp add: is_Exception_def)
  note c = docx_failure_caught[OF h1 h2 h3 h4 h5, of demo_result demo_config 1,
      THEN conjunct2, THEN conjunct2, THEN conjunct2, THEN conjunct1]
  from h1 h2 h3 h4 h5 c show ?thesis by (intro conjI)
qed

text \<open>
  C5, as the claim states it, fails: a \<^verbatim>\<open>KeyboardInterrupt\<close> raised while the document is composed
  is an exception that neither handler catches, and it leaves \<^verbatim>\<open>save_all\<close>.
\<close>

theorem keyboard_interrupt_not_caught:
  "first_fault (docx (idle_world\<lparr>docx := \<lparr>import_fault = None,
        compose_fault = Some (Exn KeyboardInterrupt []), save_fault = None\<rparr>\<rparr>)) =
       Some (Exn KeyboardInterrupt [])
   \<and> fst (save_all demo_result demo_config (str ''out'') 1
        (idle_world\<lparr>docx := \<lparr>import_fault = None,
        compose_fault = Some (Exn KeyboardInterrupt []), save_fault = None\<rparr>\<rparr>)) =
       Inl (Exn KeyboardInterrupt [])"
proof -
  let ?w = "idle_world\<lparr>docx := \<lparr>import_fault = None,
        compose_fault = Some (Exn KeyboardInterrupt []), save_fault = None\<rparr>\<rparr>"
  have h1: "stdout_ok ?w" by (simp add: stdout_ok_def idle_world_def)
  have h2: "md_path_of (str ''out'') \<notin> unwritable ?w" by (simp add: idle_world_def)
  have h3: "meta_path_of (str ''out'') \<notin> unwritable ?w" by (simp add: idle_world_def)
  have h4: "first_fault (docx ?w) = Some (Exn KeyboardInterrupt [])"
    by (simp add: first_fault_def)
  obtain r w' where o: "save_all demo_result demo_config (str ''out'') 1 ?w = (r, w')"
    by (cases "save_all demo_result demo_config (str ''out'') 1 ?w")
  from save_all_outcome[OF h1 h2 h3 o] h4 have "r = Inl (Exn KeyboardInterrupt [])"
    by (simp add: is_Exception_def)
  with o h4 show ?thesis by simp
qed

lemma md_lines_to_docx_empty: "md_lines_to_docx doc [] = doc"
  by (simp add: md_lines_to_docx_def md_line_to_docx_def strip_def startswith_def str_def)

text \<open>
  C9: a result without the key \<^verbatim>\<open>recommendation\<close>, or without the key \<^verbatim>\<open>action_plan\<close>, is treated by
  \<^verbatim>\<open>save_all\<close> exactly as the result that has the empty string under that key, so nothing is
  raised on the missing key: the Markdown text has the empty string in the field's place, and
  the document gets no element for it (as the empty text would give none). When the console can
  be written and the reports can be opened, the Markdown file is written with that text.
\<close>

theorem missing_result_key_is_empty:
  "(map_of result (str ''recommendation'') = None \<longrightarrow>
      save_all result config d elapsed w =
        save_all ((str ''recommendation'', []) # result) config d elapsed w
      \<and> md_text result a t =
          str ''# MBA Strategy Report v4'' @ [10, 10]
          @ str ''**Generated:** '' @ isoformat t @ [10]
          @ str ''**Agents:** '' @ a @ [10, 10] @ str ''---'' @ [10, 10]
          @ [] @ [10, 10] @ str ''---'' @ [10, 10] @ dict_get result (str ''action_plan'') []
      \<and> compose_docx result config a t =
          (let doc = add_page_break (cover_page config a t);
               action_plan = dict_get result (str ''action_plan'') []
           in if action_plan \<noteq> [] then md_lines_to_docx doc action_plan else doc))
   \<and> (map_of result (str ''action_plan'') = None \<longrightarrow>
      save_all result config d elapsed w =
        save_all ((str ''action_plan'', []) # result) config d elapsed w
      \<and> md_text result a t =
          str ''# MBA Strategy Report v4'' @ [10, 10]
          @ str ''**Generated:** '' @ isoformat t @ [10]
          @ str ''**Agents:** '' @ a @ [10, 10] @ str ''---'' @ [10, 10]
          @ dict_get result (str ''recommendation'') [] @ [10, 10] @ str ''---'' @ [10, 10] @ []
      \<and> compose_docx result config a t =
          (let doc = cover_page config a t;
               recommendation = dict_get result (str ''recommendation'') []
           in add_page_break
                (if recommendation \<noteq> [] then md_lines_to_docx doc recommendation else doc)))
   \<and> md_lines_to_docx doc [] = doc
   \<and> (stdout_ok w \<longrightarrow> md_path_of d \<notin> unwritable w \<longrightarrow> meta_path_of d \<notin> unwritable w \<longrightarrow>
        files (snd (save_all result config d elapsed w)) (md_path_of d) =
          Some (Text (md_text result (agents_str_of config) (clock w (ticks w)))))"
proof -
  have k: "str ''recommendation'' \<noteq> str ''action_plan''" by (simp add: str_def)
  have 3: "files (snd (save_all result config d elapsed w)) (md_path_of d) =
          Some (Text (md_text result (agents_str_of config) (clock w (ticks w))))"
    if "stdout_ok w" "md_path_of d \<notin> unwritable w" "meta_path_of d \<notin> unwritable w"
  proof -
    obtain r w' where o: "save_all result config d elapsed w = (r, w')"
      by (cases "save_all result config d elapsed w")
    from save_all_outcome[OF that o] o show ?thesis by simp
  qed
  have 1: "save_all result config d elapsed w =
        save_all ((str ''recommendation'', []) # result) config d elapsed w"
    if "map_of result (str ''recommendation'') = None"
    using that k
    by (simp add: save_all_def docx_body_def md_text_def compose_docx_def dict_get_def)
  have 2: "save_all result config d elapsed w =
        save_all ((str ''action_plan'', []) # result) config d elapsed w"
    if "map_of result (str ''action_plan'') = None"
    using that k
    by (simp add: save_all_def docx_body_def md_text_def compose_docx_def dict_get_def)
  from 1 2 3 show ?thesis
    by (simp add: md_text_def compose_docx_def dict_get_def Let_def md_lines_to_docx_empty)
qed

theorem missing_result_key_is_empty_witness:
  "map_of ([] :: result) (str ''recommendation'') = None
   \<and> map_of ([] :: result) (str ''action_plan'') = None
   \<and> save_all [] demo_config (str ''out'') 1 idle_world =
       save_all ((str ''recommendation'', []) # []) demo_config (str ''out'') 1 idle_world
   \<and> save_all [] demo_config (str ''out'') 1 idle_world =
       save_all ((str ''action_plan'', []) # []) demo_config (str ''out'') 1 idle_world
   \<and> stdout_ok idle_world
   \<and> md_path_of (str ''out'') \<notin> unwritable idle_world
   \<and> meta_path_of (str ''out'') \<notin> unwritable idle_world
   \<and> files (snd (save_all [] demo_config (str ''out'') 1 idle_world)) (md_path_of (str ''out'')) =
       Some (Text (md_text [] (agents_str_of demo_config) (clock idle_world (ticks idle_world))))"
proof -
  have h3: "stdout_ok idle_world" by (simp add: stdout_ok_def idle_world_def)
  have h4: "md_path_of (str ''out'') \<notin> unwritable idle_world" by (simp add: idle_world_def)
  have h5: "meta_path_of (str ''out'') \<notin> unwritable idle_world" by (simp add: idle_world_def)
  have h1: "map_of ([] :: result) (str ''recommendation'') = None" by simp
  have h2: "map_of ([] :: result) (str ''action_plan'') = None" by simp
  note c1 = missing_result_key_is_empty[of "[]" demo_config "str ''out''" 1 idle_world "[]"
      "demo_clock 0" DocxDocument, THEN conjunct1, THEN mp, OF h1, THEN conjunct1]
  note c2 = missing_result_key_is_empty[of "[]" demo_config "str ''out''" 1 idle_world "[]"
      "demo_clock 0" DocxDocument, THEN conjunct2, THEN conjunct1, THEN mp, OF h2, THEN conjunct1]
  note c3 = missing_result_key_is_empty[of "[]" demo_config "str ''out''" 1 idle_world "[]"
      "demo_clock 0" DocxDocument, THEN conjunct2, THEN conjunct2, THEN conjunct2, rule_format,
      OF h3 h4 h5]
  from h1 h2 c1 c2 h3 h4 h5 c3 show ?thesis by (intro conjI)
qed

section \<open>Properties of \<^verbatim>\<open>run\<close>\<close>

lemma emits_quietI:
  "(\<And>w. \<exists>evs. trace (snd (m w)) = trace w @ evs \<and> list_all quiet evs) \<Longrightarrow> emits_quiet m"
  by (simp add: emits_quiet_def)

lemma emits_quietD:
  assumes "emits_quiet m" and "m w = (r, w1)"
  shows "\<exists>evs. trace w1 = trace w @ evs \<and> list_all quiet evs"
proof -
  from assms(1) have "\<exists>evs. trace (snd (m w)) = trace w @ evs \<and> list_all quiet evs"
    unfolding emits_quiet_def by (rule spec)
  with assms(2) show ?thesis by simp
qed

lemma emits_quiet_silent: "(\<And>w. trace (snd (m w)) = trace w) \<Longrightarrow> emits_quiet m"
  by (simp add: emits_quiet_def)

lemma emits_quiet_pbind:
  assumes "emits_quiet m" and "\<And>a. emits_quiet (f a)"
  shows "emits_quiet (pbind m f)"
proof (rule emits_quietI)
  fix w
  obtain r w1 where m: "m w = (r, w1)" by (cases "m w")
  from emits_quietD[OF assms(1) m] obtain evs1 where
    1: "trace w1 = trace w @ evs1" "list_all quiet evs1" by blast
  show "\<exists>evs. trace (snd (pbind m f w)) = trace w @ evs \<and> list_all quiet evs"
  proof (cases r)
    case (Inl e)
    with m 1 show ?thesis by (simp add: pbind_def)
  next
    case (Inr a)
    from emits_quietD[OF assms(2)[of a], of w1 "fst (f a w1)" "snd (f a w1)"] obtain evs2 where
      2: "trace (snd (f a w1)) = trace w1 @ evs2" "list_all quiet evs2"
      by auto
    with m 1 Inr have "trace (snd (pbind m f w)) = trace w @ (evs1 @ evs2)"
      "list_all quiet (evs1 @ evs2)"
      by (simp_all add: pbind_def)
    then show ?thesis by blast
  qed
qed

lemma emits_quiet_emit: "quiet ev \<Longrightarrow> emits_quiet (emit ev)"
  by (rule emits_quietI) (simp add: emit_def)

lemma emits_quiet_py_print: "emits_quiet (\<lambda>w. py_print (g w) w)"
  by (rule emits_quietI) (simp add: py_print_frame quiet_def)

lemma emits_quiet_py_print': "emits_quiet (py_print s)"
  by (rule emits_quiet_py_print)

lemma emits_quiet_basic:
  "emits_quiet now" "emits_quiet (open_w p)" "emits_quiet (put_file p c)"
  "emits_quiet (mkdir p)" "emits_quiet (copytree p q)" "emits_quiet (ret a)"
  "emits_quiet (\<lambda>w. fault (g w) w)"
  "emits_quiet (\<lambda>w. case build_graph mba of Inl e \<Rightarrow> (Inl e, w) | Inr a \<Rightarrow> (Inr (), w\<lparr>agent := a\<rparr>))"
  by (rule emits_quiet_silent;
      simp add: now_def open_w_def put_file_def mkdir_def copytree_def ret_def fault_def raise_def
        split: option.splits sum.splits)+

lemma emits_quiet_start_log: "emits_quiet (start_log d)"
  by (rule emits_quietI)
    (simp add: start_log_def pbind_def emit_def open_log_def Let_def quiet_def)

lemma emits_quiet_docx_handlers:
  assumes "emits_quiet m"
  shows "emits_quiet (docx_handlers m)"
proof (rule emits_quietI)
  fix w
  obtain r w1 where m: "m w = (r, w1)" by (cases "m w")
  from emits_quietD[OF assms m] obtain evs1 where
    1: "trace w1 = trace w @ evs1" "list_all quiet evs1" by blast
  have p: "trace (snd (py_print s w1)) = trace w @ (evs1 @ [Print s])"
    "list_all quiet (evs1 @ [Print s])" for s
    using 1 by (simp_all add: py_print_frame quiet_def)
  show "\<exists>evs. trace (snd (docx_handlers m w)) = trace w @ evs \<and> list_all quiet evs"
  proof (cases r)
    case (Inr u)
    with m 1 show ?thesis by (simp add: docx_handlers_def)
  next
    case (Inl e)
    show ?thesis
    proof (cases "is_ImportError e")
      case True
      with m Inl p[of "str ''[SKIP] python-docx not installed''"] show ?thesis
        unfolding docx_handlers_def by (simp only: prod.case sum.case if_True) blast
    next
      case False
      note ni = False
      show ?thesis
      proof (cases "is_Exception e")
        case True
        with m Inl ni p[of "str ''[WARNING] DOCX generation failed: '' @ exn_msg e"]
        show ?thesis
          unfolding docx_handlers_def
          by (simp only: prod.case sum.case if_True if_False) blast
      next
        case False
        with m Inl ni 1 show ?thesis by (simp add: docx_handlers_def)
      qed
    qed
  qed
qed

lemma emits_quiet_docx_body: "emits_quiet (docx_body result config a p)"
  unfolding docx_body_def
  by (intro emits_quiet_pbind emits_quiet_basic emits_quiet_py_print')

lemma emits_quiet_save_all: "emits_quiet (save_all result config d elapsed)"
  unfolding save_all_def Let_def
  by (intro emits_quiet_pbind emits_quiet_basic emits_quiet_py_print'
      emits_quiet_docx_handlers emits_quiet_docx_body)

lemma emits_quiet_copy_to_drive: "emits_quiet (copy_to_drive d :: (unit, 'e) prog)"
proof (rule emits_quietI)
  fix w :: "'e world"
  let ?dest = "DRIVE_OUTPUT_DIR @ str ''/'' @ path_name d"
  have a: "emits_quiet (pbind (mkdir DRIVE_OUTPUT_DIR) (\<lambda>u.
            pbind (copytree d ?dest) (\<lambda>u. py_print (str ''Drive:    '' @ ?dest)))
            :: (unit, 'e) prog)"
    by (intro emits_quiet_pbind emits_quiet_basic emits_quiet_py_print')
  have b: "emits_quiet
      (py_print (str ''[SKIP] Google Drive not mounted '' @ [8212] @ str '' Drive save skipped'')
        :: (unit, 'e) prog)"
    by (rule emits_quiet_py_print')
  show "\<exists>evs. trace (snd (copy_to_drive d w)) = trace w @ evs \<and> list_all quiet evs"
  proof (cases "path_exists (str ''/content/drive/MyDrive'') w")
    case True
    with a show ?thesis by (simp add: copy_to_drive_def Let_def emits_quiet_def)
  next
    case False
    with b show ?thesis by (simp add: copy_to_drive_def emits_quiet_def)
  qed
qed

lemma emits_quiet_epilogue: "emits_quiet (epilogue config d t0 result)"
  unfolding epilogue_def Let_def
  by (intro emits_quiet_pbind emits_quiet_basic emits_quiet_py_print' emits_quiet_save_all
      emits_quiet_copy_to_drive emits_quiet_emit) (simp_all add: quiet_def)

lemma emits_quiet_prologue: "emits_quiet (prologue mba)"
  unfolding prologue_def Let_def
  by (intro emits_quiet_pbind emits_quiet_basic emits_quiet_py_print emits_quiet_start_log
      emits_quiet_emit) (simp_all add: quiet_def)

lemma raise_last_quiet: "list_all quiet evs \<Longrightarrow> raise_last r evs"
  by (simp add: raise_last_def)

lemma raise_last_append:
  "list_all quiet evs1 \<Longrightarrow> raise_last r evs2 \<Longrightarrow> raise_last r (evs1 @ evs2)"
  by (fastforce simp: raise_last_def)

lemma quiet_gate_events: "list_all quiet (gate_events g intr v)"
  by (simp add: gate_events_def quiet_def)

lemma agent_invoke_tracked:
  "\<exists>evs. trace (snd (agent_invoke mba c w)) = trace w @ evs
      \<and> raise_last (fst (agent_invoke mba c w)) evs"
proof (cases "invoke mba c (agent w)")
  case (Pair r a)
  show ?thesis
  proof (cases r)
    case (Inl e)
    with Pair have "trace (snd (agent_invoke mba c w)) = trace w @ ([Invoke c] @ [Raised e])"
      "fst (agent_invoke mba c w) = Inl e"
      by (simp_all add: agent_invoke_def pbind_def emit_def)
    moreover have "raise_last (Inl e :: exn + result) ([Invoke c] @ [Raised e])"
      unfolding raise_last_def by (rule disjI2) (simp add: quiet_def)
    ultimately show ?thesis by metis
  next
    case (Inr x)
    with Pair have "trace (snd (agent_invoke mba c w)) = trace w @ [Invoke c]"
      by (simp add: agent_invoke_def pbind_def emit_def)
    moreover have "raise_last (fst (agent_invoke mba c w)) [Invoke c]"
      by (rule raise_last_quiet) (simp add: quiet_def)
    ultimately show ?thesis by blast
  qed
qed

lemma agent_get_state_tracked:
  "\<exists>evs. trace (snd (agent_get_state mba w)) = trace w @ evs
      \<and> raise_last (fst (agent_get_state mba w)) evs"
proof (cases "get_state mba (agent w)")
  case (Pair r a)
  show ?thesis
  proof (cases r)
    case (Inl e)
    with Pair have "trace (snd (agent_get_state mba w)) = trace w @ ([Get_state] @ [Raised e])"
      "fst (agent_get_state mba w) = Inl e"
      by (simp_all add: agent_get_state_def pbind_def emit_def)
    moreover have "raise_last (Inl e :: exn + snapshot) ([Get_state] @ [Raised e])"
      unfolding raise_last_def by (rule disjI2) (simp add: quiet_def)
    ultimately show ?thesis by metis
  next
    case (Inr x)
    with Pair have "trace (snd (agent_get_state mba w)) = trace w @ [Get_state]"
      by (simp add: agent_get_state_def pbind_def emit_def)
    moreover have "raise_last (fst (agent_get_state mba w)) [Get_state]"
      by (rule raise_last_quiet) (simp add: quiet_def)
    ultimately show ?thesis by blast
  qed
qed

lemma handle_interrupt_tracked:
  "\<exists>evs. trace (snd (handle_interrupt mba intr g w)) = trace w @ evs
      \<and> raise_last (fst (handle_interrupt mba intr g w)) evs"
proof (cases "replies w")
  case Nil
  then have "trace (snd (handle_interrupt mba intr g w)) =
      trace w @ butlast (gate_events (Suc g) intr [])"
    by (simp add: handle_interrupt_unfold)
  moreover have "list_all quiet (butlast (gate_events (Suc g) intr []))"
    by (simp add: gate_events_def quiet_def)
  ultimately show ?thesis using raise_last_quiet by blast
next
  case (Cons l ls)
  obtain r a where i: "invoke mba (Resume (resume_value l)) (agent w) = (r, a)"
    by (cases "invoke mba (Resume (resume_value l)) (agent w)")
  show ?thesis
  proof (cases r)
    case (Inl e)
    with i handle_interrupt_reply[OF Cons, of mba intr g]
    have "trace (snd (handle_interrupt mba intr g w)) =
        trace w @ (gate_events (Suc g) intr (resume_value l) @ [Raised e])"
      "fst (handle_interrupt mba intr g w) = Inl e"
      by simp_all
    moreover have "raise_last (Inl e :: exn + nat \<times> result)
        (gate_events (Suc g) intr (resume_value l) @ [Raised e])"
      unfolding raise_last_def by (rule disjI2) (simp add: quiet_gate_events)
    ultimately show ?thesis by metis
  next
    case (Inr x)
    with i handle_interrupt_reply[OF Cons, of mba intr g]
    have "trace (snd (handle_interrupt mba intr g w)) =
        trace w @ gate_events (Suc g) intr (resume_value l)"
      by simp
    then show ?thesis using raise_last_quiet[OF quiet_gate_events] by blast
  qed
qed

text \<open>How the events of a step and of what follows it combine.\<close>

lemma tracked_then:
  assumes 1: "trace w1 = trace w @ evs1" "raise_last (Inr a :: exn + 'a) evs1"
    and 2: "trace w2 = trace w1 @ evs2" "raise_last (r :: exn + 'b) evs2"
  shows "\<exists>evs. trace w2 = trace w @ evs \<and> raise_last r evs"
proof -
  from 1(2) have "list_all quiet evs1" by (auto simp: raise_last_def)
  from raise_last_append[OF this 2(2)] have "raise_last r (evs1 @ evs2)" .
  with 1(1) 2(1) show ?thesis by simp
qed

lemma raise_last_Inl: "raise_last (Inl e :: exn + 'a) evs \<Longrightarrow> raise_last (Inl e :: exn + 'b) evs"
  by (simp add: raise_last_def)

lemma resolve_interrupts_tracked:
  "\<exists>evs. trace (snd (resolve_interrupts mba intrs st w)) = trace w @ evs
      \<and> raise_last (fst (resolve_interrupts mba intrs st w)) evs"
proof (induction intrs arbitrary: st w)
  case Nil
  have "raise_last (Inr st :: exn + nat \<times> result) []" by (simp add: raise_last_def)
  then show ?case by simp
next
  case (Cons intr intrs)
  obtain r w1 where h: "handle_interrupt mba intr (fst st) w = (r, w1)"
    by (cases "handle_interrupt mba intr (fst st) w")
  from handle_interrupt_tracked[of mba intr "fst st" w] h obtain evs1 where
    1: "trace w1 = trace w @ evs1" "raise_last r evs1" by auto
  show ?case
  proof (cases r)
    case (Inl e)
    with h 1 show ?thesis by auto
  next
    case (Inr st1)
    from Cons.IH[of st1 w1] obtain evs2 where
      2: "trace (snd (resolve_interrupts mba intrs st1 w1)) = trace w1 @ evs2"
      "raise_last (fst (resolve_interrupts mba intrs st1 w1)) evs2" by auto
    from 1 Inr have "raise_last (Inr st1 :: exn + nat \<times> result) evs1" by simp
    from tracked_then[OF 1(1) this 2] h Inr show ?thesis by simp
  qed
qed

lemma scan_tasks_tracked:
  "\<exists>evs. trace (snd (scan_tasks mba ts st w)) = trace w @ evs
      \<and> raise_last (fst (scan_tasks mba ts st w)) evs"
proof (induction ts arbitrary: st w)
  case Nil
  have "raise_last (Inr st :: exn + nat \<times> result) []" by (simp add: raise_last_def)
  then show ?case by simp
next
  case (Cons t ts)
  show ?case
  proof (cases "interrupts t")
    case None
    with Cons.IH[of st w] show ?thesis by simp
  next
    case (Some intrs)
    obtain r w1 where h: "resolve_interrupts mba intrs st w = (r, w1)"
      by (cases "resolve_interrupts mba intrs st w")
    from resolve_interrupts_tracked[of mba intrs st w] h obtain evs1 where
      1: "trace w1 = trace w @ evs1" "raise_last r evs1" by auto
    show ?thesis
    proof (cases r)
      case (Inl e)
      with h 1 Some show ?thesis by auto
    next
      case (Inr st1)
      from Cons.IH[of st1 w1] obtain evs2 where
        2: "trace (snd (scan_tasks mba ts st1 w1)) = trace w1 @ evs2"
        "raise_last (fst (scan_tasks mba ts st1 w1)) evs2" by auto
      from 1 Inr have "raise_last (Inr st1 :: exn + nat \<times> result) evs1" by simp
      from tracked_then[OF 1(1) this 2] h Inr Some show ?thesis by simp
    qed
  qed
qed

lemma controller_loop_tracked:
  "controller_loop mba fuel st w = Some (r, w') \<Longrightarrow>
     \<exists>evs. trace w' = trace w @ evs \<and> raise_last r evs"
proof (induction fuel arbitrary: st w)
  case 0
  then show ?case by simp
next
  case (Suc fuel)
  obtain r1 w1 where g: "agent_get_state mba w = (r1, w1)" by (cases "agent_get_state mba w")
  from agent_get_state_tracked[of mba w] g obtain evs1 where
    1: "trace w1 = trace w @ evs1" "raise_last r1 evs1" by auto
  show ?case
  proof (cases r1)
    case (Inl e)
    with g Suc.prems have "r = Inl e" "w' = w1" by simp_all
    with 1 Inl raise_last_Inl show ?thesis by blast
  next
    case (Inr snap)
    note snap = Inr
    from 1 Inr have q1: "raise_last (Inr snap :: exn + snapshot) evs1" by simp
    show ?thesis
    proof (cases "snapshot_next snap = []")
      case True
      with g snap Suc.prems have "r = Inr st" "w' = w1" by simp_all
      moreover from q1 have "raise_last (Inr st :: exn + nat \<times> result) evs1"
        by (simp add: raise_last_def)
      ultimately show ?thesis using 1 by blast
    next
      case False
      obtain r2 w2 where s: "scan_tasks mba (tasks snap) st w1 = (r2, w2)"
        by (cases "scan_tasks mba (tasks snap) st w1")
      from scan_tasks_tracked[of mba "tasks snap" st w1] s obtain evs2 where
        2: "trace w2 = trace w1 @ evs2" "raise_last r2 evs2" by auto
      from tracked_then[OF 1(1) q1 2] obtain evs12 where
        12: "trace w2 = trace w @ evs12" "raise_last r2 evs12" by blast
      show ?thesis
      proof (cases r2)
        case (Inl e)
        with g snap False s Suc.prems have "r = Inl e" "w' = w2" by simp_all
        with 12 Inl raise_last_Inl show ?thesis by blast
      next
        case (Inr st2)
        with g snap False s Suc.prems have "controller_loop mba fuel st2 w2 = Some (r, w')"
          by simp
        from Suc.IH[OF this] obtain evs3 where
          3: "trace w' = trace w2 @ evs3" "raise_last r evs3" by blast
        from 12 Inr have "raise_last (Inr st2 :: exn + nat \<times> result) evs12" by simp
        from tracked_then[OF 12(1) this 3] show ?thesis .
      qed
    qed
  qed
qed

lemma run_body_tracked:
  assumes "run_body mba config d fuel w = Some (r, w')"
  shows "\<exists>evs. trace w' = trace w @ evs \<and> raise_last r evs"
proof -
  let ?w1 = "w\<lparr>ticks := Suc (ticks w)\<rparr>"
  let ?t0 = "clock w (ticks w)"
  obtain r2 w2 where i: "agent_invoke mba (Start (INPUT_QUERY mba)) ?w1 = (r2, w2)"
    by (cases "agent_invoke mba (Start (INPUT_QUERY mba)) ?w1")
  from agent_invoke_tracked[of mba "Start (INPUT_QUERY mba)" ?w1] i obtain evs2 where
    2: "trace w2 = trace w @ evs2" "raise_last r2 evs2" by auto
  show ?thesis
  proof (cases r2)
    case (Inl e)
    with i assms have "r = Inl e" "w' = w2" by (simp_all add: run_body_def now_def)
    with 2 Inl raise_last_Inl show ?thesis by blast
  next
    case (Inr result)
    note res = Inr
    with 2 have q2: "raise_last (Inr result :: exn + result) evs2" by simp
    from i res assms obtain r3 w3 where
      c: "controller_loop mba fuel (0, result) w2 = Some (r3, w3)"
      by (cases "controller_loop mba fuel (0, result) w2") (auto simp: run_body_def now_def)
    from controller_loop_tracked[OF c] obtain evs3 where
      3: "trace w3 = trace w2 @ evs3" "raise_last r3 evs3" by blast
    from tracked_then[OF 2(1) q2 3] obtain evs23 where
      23: "trace w3 = trace w @ evs23" "raise_last r3 evs23" by blast
    show ?thesis
    proof (cases r3)
      case (Inl e)
      with i res c assms have "r = Inl e" "w' = w3" by (simp_all add: run_body_def now_def)
      with 23 Inl raise_last_Inl show ?thesis by blast
    next
      case (Inr st)
      with i res c assms have e: "epilogue config d ?t0 (snd st) w3 = (r, w')"
        by (simp add: run_body_def now_def)
      from emits_quietD[OF emits_quiet_epilogue e] obtain evs4 where
        4: "trace w' = trace w3 @ evs4" "list_all quiet evs4" by blast
      from 4(2) have "raise_last r evs4" by (rule raise_last_quiet)
      from 23 Inr have "raise_last (Inr st :: exn + nat \<times> result) evs23" by simp
      from tracked_then[OF 23(1) this 4(1) \<open>raise_last r evs4\<close>] show ?thesis .
    qed
  qed
qed

lemma stop_log_trace: "fst (stop_log w) = Inr () \<and> trace (snd (stop_log w)) = trace w @ [Stop_log]"
  by (cases "tee w") (auto simp: stop_log_def pbind_def emit_def close_log_def)

lemma raise_last_facts:
  assumes "raise_last r evs"
  shows "Stop_log \<notin> set evs \<and> (\<forall>e. Raised e \<in> set evs \<longrightarrow> r = Inl e \<and> last evs = Raised e)"
proof -
  have q: "list_all quiet xs \<Longrightarrow> Stop_log \<notin> set xs \<and> (\<forall>e. Raised e \<notin> set xs)" for xs
    by (induction xs) (auto simp: quiet_def)
  from assms show ?thesis
    unfolding raise_last_def using q by fastforce
qed

text \<open>
  C7, as the code has it. When the steps before the \<^verbatim>\<open>try\<close> block have returned (the graph is
  built, the directory made and \<^verbatim>\<open>start_log\<close> has returned), every exit of \<^verbatim>\<open>run\<close>, by return or by
  an exception, has the teardown of the log as its last event and nowhere before it in the run;
  and if an engine call (the first invocation, a resume, or a state query) raised, the run ends
  with that exception, and the call that raised is the last thing the run did before the
  teardown, so nothing was retried. When one of the steps before the \<^verbatim>\<open>try\<close> block raises, \<^verbatim>\<open>run\<close>
  ends with that exception and the teardown is not executed.
\<close>

theorem run_teardown_once:
  "(\<forall>output_dir w1 r w'. prologue mba w = (Inr output_dir, w1) \<longrightarrow>
      run mba config_dict fuel w = Some (r, w') \<longrightarrow>
      (\<exists>evs. trace w' = trace w @ evs @ [Stop_log] \<and> Stop_log \<notin> set evs
         \<and> (\<forall>e. Raised e \<in> set evs \<longrightarrow> r = Inl e \<and> last evs = Raised e)))
   \<and> (\<forall>e w1. prologue mba w = (Inl e, w1) \<longrightarrow>
      run mba config_dict fuel w = Some (Inl e, w1)
      \<and> (\<exists>evs. trace w1 = trace w @ evs \<and> Stop_log \<notin> set evs))"
proof (intro conjI allI impI)
  fix output_dir w1 r w'
  assume p: "prologue mba w = (Inr output_dir, w1)"
    and r: "run mba config_dict fuel w = Some (r, w')"
  from emits_quietD[OF emits_quiet_prologue p] obtain evs0 where
    0: "trace w1 = trace w @ evs0" "list_all quiet evs0" by blast
  from p r obtain r2 w2 where
    b: "run_body mba config_dict output_dir fuel w1 = Some (r2, w2)"
    and f: "py_finally stop_log (r2, w2) = (r, w')"
    by (cases "run_body mba config_dict output_dir fuel w1") (auto simp: run_def)
  from run_body_tracked[OF b] obtain evs1 where
    1: "trace w2 = trace w1 @ evs1" "raise_last r2 evs1" by blast
  from f stop_log_trace[of w2] have s: "r = r2" "trace w' = trace w2 @ [Stop_log]"
    by (auto simp: py_finally_def split: prod.splits sum.splits)
  from raise_last_append[OF 0(2) 1(2)] have "raise_last r2 (evs0 @ evs1)" .
  from raise_last_facts[OF this] s 0 1
  have "trace w' = trace w @ (evs0 @ evs1) @ [Stop_log] \<and> Stop_log \<notin> set (evs0 @ evs1)
         \<and> (\<forall>e. Raised e \<in> set (evs0 @ evs1) \<longrightarrow> r = Inl e \<and> last (evs0 @ evs1) = Raised e)"
    by simp
  then show "\<exists>evs. trace w' = trace w @ evs @ [Stop_log] \<and> Stop_log \<notin> set evs
         \<and> (\<forall>e. Raised e \<in> set evs \<longrightarrow> r = Inl e \<and> last evs = Raised e)"
    by (rule exI)
next
  fix e w1
  assume p: "prologue mba w = (Inl e, w1)"
  then show "run mba config_dict fuel w = Some (Inl e, w1)" by (simp add: run_def)
  from emits_quietD[OF emits_quiet_prologue p] obtain evs0 where
    0: "trace w1 = trace w @ evs0" "list_all quiet evs0" by blast
  from raise_last_facts[OF raise_last_quiet[OF 0(2)], of "Inl e :: exn + unit"] 0(1)
  show "\<exists>evs. trace w1 = trace w @ evs \<and> Stop_log \<notin> set evs" by blast
qed

theorem run_teardown_once_witness:
  "prologue failing_mba idle_world =
      (Inr (str ''20260105_100000''), snd (prologue failing_mba idle_world))
   \<and> run failing_mba demo_config (Suc 0) idle_world =
      Some (Inl (Exn RuntimeError (str ''engine failure'')),
            snd (the (run failing_mba demo_config (Suc 0) idle_world)))
   \<and> (\<exists>evs. trace (snd (the (run failing_mba demo_config (Suc 0) idle_world))) =
          trace idle_world @ evs @ [Stop_log] \<and> Stop_log \<notin> set evs
        \<and> (\<forall>e. Raised e \<in> set evs \<longrightarrow>
              Inl (Exn RuntimeError (str ''engine failure'')) = (Inl e :: exn + result)
              \<and> last evs = Raised e))
   \<and> prologue broken_mba idle_world =
      (Inl (Exn RuntimeError (str ''no graph'')), idle_world\<lparr>trace := [Build_graph]\<rparr>)
   \<and> run broken_mba demo_config (Suc 0) idle_world =
      Some (Inl (Exn RuntimeError (str ''no graph'')), idle_world\<lparr>trace := [Build_graph]\<rparr>)"
proof -
  have h1: "prologue failing_mba idle_world =
      (Inr (str ''20260105_100000''), snd (prologue failing_mba idle_world))"
    by (simp add: prologue_def pbind_def emit_def now_def mkdir_def py_print_def start_log_def
        open_log_def ret_def Let_def failing_mba_def demo_mba_def idle_world_def demo_clock_def)
  have "map_option fst (run failing_mba demo_config (Suc 0) idle_world) =
      Some (Inl (Exn RuntimeError (str ''engine failure'')))"
    by (simp add: run_def prologue_def pbind_def emit_def now_def mkdir_def py_print_def
        start_log_def open_log_def ret_def Let_def failing_mba_def demo_mba_def idle_world_def
        demo_clock_def run_body_def agent_invoke_def agent_get_state_def handle_interrupt_unfold
        demo_snapshot_def py_finally_def stop_log_def close_log_def)
  then have h2: "run failing_mba demo_config (Suc 0) idle_world =
      Some (Inl (Exn RuntimeError (str ''engine failure'')),
            snd (the (run failing_mba demo_config (Suc 0) idle_world)))"
    by (cases "run failing_mba demo_config (Suc 0) idle_world") auto
  have h3: "prologue broken_mba idle_world =
      (Inl (Exn RuntimeError (str ''no graph'')), idle_world\<lparr>trace := [Build_graph]\<rparr>)"
    by (simp add: prologue_def pbind_def emit_def broken_mba_def demo_mba_def idle_world_def)
  note c1 = run_teardown_once[of failing_mba idle_world demo_config "Suc 0",
      THEN conjunct1, rule_format, OF h1 h2]
  note c2 = run_teardown_once[of broken_mba idle_world demo_config "Suc 0",
      THEN conjunct2, rule_format, OF h3, THEN conjunct1]
  from h1 h2 c1 h3 c2 show ?thesis by (intro conjI)
qed

text \<open>
  C7, as the claim states it, fails on an exit path of \<^verbatim>\<open>run\<close> that lies before the \<^verbatim>\<open>try\<close> block:
  when \<^verbatim>\<open>build_graph\<close> raises, \<^verbatim>\<open>run\<close> ends with that exception and the teardown of the log is
  not executed.
\<close>

theorem run_exit_without_teardown:
  "run broken_mba demo_config 5 idle_world =
      Some (Inl (Exn RuntimeError (str ''no graph'')), idle_world\<lparr>trace := [Build_graph]\<rparr>)
   \<and> Stop_log \<notin> set (trace (idle_world\<lparr>trace := [Build_graph]\<rparr>))"
  by (simp add: run_def prologue_def pbind_def emit_def broken_mba_def demo_mba_def idle_world_def)

end
